theory Spec2Isabelle
  imports Complex_Main "HOL-Library.Word"
begin

unbundle bit_operations_syntax

section \<open>Firmware: text helpers of the interpreter\<close>

text \<open>
  The firmware (\<^verbatim>\<open>stmV2serial.py\<close>) runs on MicroPython. A \<^verbatim>\<open>str\<close> read from
  \<^verbatim>\<open>sys.stdin\<close> is modelled as a \<open>string\<close>. The built-ins the firmware calls on
  strings are written out here: \<^verbatim>\<open>str.strip()\<close>, \<^verbatim>\<open>str.split()\<close>, \<^verbatim>\<open>str.upper()\<close>,
  \<^verbatim>\<open>'=' in p\<close>, \<^verbatim>\<open>p.split('=', 1)\<close> and \<^verbatim>\<open>int(s)\<close>.
\<close>

datatype exn = ValueError string | ZeroDivisionError | IndexError

text \<open>The text of an exception, \<^verbatim>\<open>str(e)\<close>.\<close>

fun str_exn :: "exn \<Rightarrow> string" where
  "str_exn (ValueError m) = m"
| "str_exn ZeroDivisionError = ''divide by zero''"
| "str_exn IndexError = ''list index out of range''"

text \<open>White space as \<^verbatim>\<open>strip()\<close> and \<^verbatim>\<open>split()\<close> see it: space, tab, line feed,
  vertical tab, form feed, carriage return.\<close>

definition isspace :: "char \<Rightarrow> bool" where
  "isspace c \<longleftrightarrow> c = CHR '' '' \<or> (9 \<le> (of_char c :: nat) \<and> (of_char c :: nat) \<le> 13)"

text \<open>\<^verbatim>\<open>s.strip()\<close>, for the white space \<open>sp\<close> of the interpreter at hand.\<close>

definition strip_with :: "('a \<Rightarrow> bool) \<Rightarrow> 'a list \<Rightarrow> 'a list" where
  "strip_with sp s = rev (dropWhile sp (rev (dropWhile sp s)))"

definition strip :: "string \<Rightarrow> string" where
  "strip s = strip_with isspace s"

text \<open>\<^verbatim>\<open>s.split()\<close> without a separator: the maximal runs of characters that are not
  white space, in order. \<open>cur\<close> is the run being read.\<close>

fun split_ws :: "('a \<Rightarrow> bool) \<Rightarrow> 'a list \<Rightarrow> 'a list \<Rightarrow> 'a list list" where
  "split_ws sp cur [] = (if cur = [] then [] else [cur])"
| "split_ws sp cur (c # cs) =
     (if sp c then (if cur = [] then split_ws sp [] cs else cur # split_ws sp [] cs)
      else split_ws sp (cur @ [c]) cs)"

definition py_split :: "string \<Rightarrow> string list" where
  "py_split s = split_ws isspace [] s"

definition upper_char :: "char \<Rightarrow> char" where
  "upper_char c =
     (if 97 \<le> (of_char c :: nat) \<and> (of_char c :: nat) \<le> 122
      then char_of ((of_char c :: nat) - 32) else c)"

definition upper :: "string \<Rightarrow> string" where
  "upper s = map upper_char s"

text \<open>\<^verbatim>\<open>k, v = p.split('=', 1)\<close> for a \<open>p\<close> that contains \<^verbatim>\<open>'='\<close>.\<close>

definition split_eq :: "string \<Rightarrow> string \<times> string" where
  "split_eq p = (takeWhile (\<lambda>c. c \<noteq> CHR ''='') p, tl (dropWhile (\<lambda>c. c \<noteq> CHR ''='') p))"

text \<open>
  \<^verbatim>\<open>int(s)\<close> on a string without white space: an optional sign, then decimal digits,
  which single underscores may group (\<^verbatim>\<open>1_000\<close>: an underscore stands between two
  digits). \<open>ungroup\<close> checks the digits and takes the underscores out. Any other text raises
  \<^verbatim>\<open>ValueError\<close>; its message is worded as MicroPython words it by default, other builds
  word it differently, and no statement below depends on the wording.
\<close>

definition is_digit :: "char \<Rightarrow> bool" where
  "is_digit c \<longleftrightarrow> 48 \<le> (of_char c :: nat) \<and> (of_char c :: nat) \<le> 57"

fun digits_val :: "nat \<Rightarrow> string \<Rightarrow> nat" where
  "digits_val acc [] = acc"
| "digits_val acc (c # cs) = digits_val (acc * 10 + ((of_char c :: nat) - 48)) cs"

fun ungroup :: "string \<Rightarrow> string option" where
  "ungroup [] = None"
| "ungroup [c] = (if is_digit c then Some [c] else None)"
| "ungroup (c # d # cs) =
     (if \<not> is_digit c then None
      else if d = CHR ''_'' then map_option ((#) c) (ungroup cs)
      else map_option ((#) c) (ungroup (d # cs)))"

definition int_literal :: "string \<Rightarrow> int option" where
  "int_literal v =
     (let (neg, ds) =
        (case v of
           [] \<Rightarrow> (False, [])
         | c # cs \<Rightarrow>
             if c = CHR ''-'' then (True, cs)
             else if c = CHR ''+'' then (False, cs)
             else (False, v))
      in case ungroup ds of
           None \<Rightarrow> None
         | Some xs \<Rightarrow> Some (if neg then - int (digits_val 0 xs) else int (digits_val 0 xs)))"

definition py_int :: "string \<Rightarrow> exn + int" where
  "py_int v =
     (case int_literal v of
        Some n \<Rightarrow> Inr n
      | None \<Rightarrow> Inl (ValueError ''invalid syntax for integer with base 10''))"

section \<open>Firmware: state, DAC and ADC\<close>

text \<open>
  The module variables \<^verbatim>\<open>frame_N\<close>, \<^verbatim>\<open>cur_line_idx\<close>, \<^verbatim>\<open>cur_dir\<close> and \<^verbatim>\<open>bias_code\<close>
  are the session. The hardware is seen through what the firmware does to it, in order:
  each call of \<^verbatim>\<open>dacShiftOut(value)\<close> clocks out bits 23 to 0 of \<open>value\<close>, a 24-bit
  word; each call of \<^verbatim>\<open>getADC()\<close> clocks in 16 bits, the next conversion of the ADC.
  The conversions the ADC will deliver are the stream \<open>adc_src\<close>; \<open>adc_cnt\<close> counts
  the conversions taken so far. \<open>stdout\<close> holds the lines printed.
\<close>

datatype hw_event = DacShift "24 word" | AdcConv "16 word"

text \<open>The lines the firmware prints, by format string.\<close>

datatype out_line =
    ErrLine int string        \<comment> \<open>\<^verbatim>\<open>ERR CODE=<int> MSG="<text>"\<close>\<close>
  | OkLine string             \<comment> \<open>\<^verbatim>\<open>OK MSG="<text>"\<close>\<close>
  | StatusLine int int int int
      \<comment> \<open>\<^verbatim>\<open>OK MSG="ready" N=%d IDX=%d DIR=%+d BIAS_CODE=%d\<close>\<close>
  | LineOkLine int int int    \<comment> \<open>\<^verbatim>\<open>LINE OK N=%d IDX=%d DIR=%+d\<close>\<close>
  | PointOkLine int           \<comment> \<open>\<^verbatim>\<open>POINT OK COUNT=%d\<close>\<close>
  | CsvLine "rat list"        \<comment> \<open>\<^verbatim>\<open>','.join('%.6f' % y for y in ys)\<close>\<close>

record dev =
  frame_N :: int
  cur_line_idx :: int
  cur_dir :: int
  bias_code :: int
  hw_log :: "hw_event list"
  adc_src :: "nat \<Rightarrow> 16 word"
  adc_cnt :: nat
  stdout :: "out_line list"

definition BIAS_CH :: int where "BIAS_CH = 3"
definition X_CH :: int where "X_CH = 0"
definition Y_CH :: int where "Y_CH = 1"

definition print :: "out_line \<Rightarrow> dev \<Rightarrow> dev" where
  "print l s = s\<lparr>stdout := stdout s @ [l]\<rparr>"

definition dacShiftOut :: "int \<Rightarrow> dev \<Rightarrow> dev" where
  "dacShiftOut v s = s\<lparr>hw_log := hw_log s @ [DacShift (word_of_int v)]\<rparr>"

definition dac_packet :: "int \<Rightarrow> int \<Rightarrow> int" where
  "dac_packet code16 channel =
     push_bit 20 3 OR push_bit 16 (channel AND 15) OR (code16 AND 65535)"

definition setDac :: "int \<Rightarrow> int \<Rightarrow> dev \<Rightarrow> dev" where
  "setDac code16 channel s = dacShiftOut (dac_packet code16 channel) s"

definition getADC :: "dev \<Rightarrow> int \<times> dev" where
  "getADC s =
     (let w = adc_src s (adc_cnt s)
      in (uint w, s\<lparr>hw_log := hw_log s @ [AdcConv w], adc_cnt := Suc (adc_cnt s)\<rparr>))"

definition set_bias :: "int \<Rightarrow> dev \<Rightarrow> dev" where
  "set_bias code s =
     (let s1 = s\<lparr>bias_code := code AND 65535\<rparr> in setDac (bias_code s1) BIAS_CH s1)"

definition clamp_u16 :: "int \<Rightarrow> int" where
  "clamp_u16 x = (if x < 0 then 0 else if x > 65535 then 65535 else x)"

definition lin_code :: "int \<Rightarrow> int \<Rightarrow> int" where
  "lin_code pos N = (if N \<le> 1 then 0 else clamp_u16 ((pos * 65535) div (N - 1)))"

text \<open>
  \<^verbatim>\<open>read_height_avg(samples)\<close>: the loop adds \<open>samples\<close> conversions, then
  \<^verbatim>\<open>code = acc / float(samples)\<close> (dividing by zero raises) and the height is
  \<^verbatim>\<open>(code - 32768.0) / 4096.0\<close>. Heights are rationals: for one sample, the only call
  the firmware makes, both operations are exact in binary floating point.
\<close>

fun adc_acc :: "nat \<Rightarrow> int \<Rightarrow> dev \<Rightarrow> int \<times> dev" where
  "adc_acc 0 acc s = (acc, s)"
| "adc_acc (Suc k) acc s = (let (v, s1) = getADC s in adc_acc k (acc + v) s1)"

definition read_height_avg :: "nat \<Rightarrow> dev \<Rightarrow> (exn + rat) \<times> dev" where
  "read_height_avg samples s =
     (let (acc, s1) = adc_acc samples 0 s
      in if samples = 0 then (Inl ZeroDivisionError, s1)
         else (Inr ((of_int acc / of_nat samples - 32768) / 4096), s1))"

section \<open>Firmware: the commands\<close>

text \<open>
  A command takes the session and returns it with what it printed and did; the first
  component is the exception it raised, if any. \<open>kv\<close> is the dictionary of
  \<^verbatim>\<open>parse_kv\<close>.
\<close>

type_synonym kv = "string \<rightharpoonup> string"

fun parse_kv_loop :: "kv \<Rightarrow> string list \<Rightarrow> kv" where
  "parse_kv_loop kv [] = kv"
| "parse_kv_loop kv (p # ps) =
     parse_kv_loop
       (if CHR ''='' \<in> set p
        then (let (k, v) = split_eq p in kv(upper (strip k) \<mapsto> strip v))
        else kv) ps"

definition parse_kv :: "string list \<Rightarrow> kv" where
  "parse_kv parts = parse_kv_loop Map.empty parts"

definition cmd_START :: "kv \<Rightarrow> dev \<Rightarrow> exn option \<times> dev" where
  "cmd_START kv s =
     (case kv ''N'' of
        None \<Rightarrow> (None, print (ErrLine 10 ''START requires N'') s)
      | Some v \<Rightarrow>
          (case py_int v of
             Inl e \<Rightarrow> (Some e, s)
           | Inr n \<Rightarrow>
               if n < 2 \<or> n > 4096 then (None, print (ErrLine 11 ''N out of range'') s)
               else (None, print (OkLine ''start-ready'')
                             (s\<lparr>frame_N := n, cur_line_idx := 0, cur_dir := 1\<rparr>))))"

definition cmd_BIAS :: "kv \<Rightarrow> dev \<Rightarrow> exn option \<times> dev" where
  "cmd_BIAS kv s =
     (case kv ''CODE'' of
        None \<Rightarrow> (None, print (ErrLine 20 ''BIAS requires CODE'') s)
      | Some v \<Rightarrow>
          (case py_int v of
             Inl e \<Rightarrow> (None, print (ErrLine 21 ''BIAS CODE invalid'') s)
           | Inr code \<Rightarrow> (None, print (OkLine ''bias-set'') (set_bias code s))))"

definition cmd_STATUS :: "dev \<Rightarrow> exn option \<times> dev" where
  "cmd_STATUS s =
     (None, print (StatusLine (frame_N s) (cur_line_idx s) (cur_dir s) (bias_code s)) s)"

text \<open>The acquisition loop of \<^verbatim>\<open>cmd_POINT\<close>: \<open>cnt\<close> readings appended to \<open>ys\<close>.\<close>

fun point_loop :: "nat \<Rightarrow> rat list \<Rightarrow> dev \<Rightarrow> (exn + rat list) \<times> dev" where
  "point_loop 0 ys s = (Inr ys, s)"
| "point_loop (Suc k) ys s =
     (case read_height_avg 1 s of
        (Inl e, s1) \<Rightarrow> (Inl e, s1)
      | (Inr y, s1) \<Rightarrow> point_loop k (ys @ [y]) s1)"

definition cmd_POINT :: "kv \<Rightarrow> dev \<Rightarrow> exn option \<times> dev" where
  "cmd_POINT kv s =
     (case py_int (case kv ''COUNT'' of None \<Rightarrow> ''200'' | Some v \<Rightarrow> v) of
        Inl e \<Rightarrow> (Some e, s)
      | Inr c \<Rightarrow>
          (let cnt = (if c < 1 then 1 else if c > 4096 then 4096 else c)
           in case point_loop (nat cnt) [] s of
                (Inl e, s1) \<Rightarrow> (Some e, s1)
              | (Inr ys, s1) \<Rightarrow> (None, print (CsvLine ys) (print (PointOkLine cnt) s1))))"

text \<open>The sweep of \<^verbatim>\<open>cmd_LINE\<close>: \<^verbatim>\<open>for i in x_iter\<close>, with \<open>x_iter\<close> as a list.\<close>

fun sweep :: "int \<Rightarrow> int list \<Rightarrow> rat list \<Rightarrow> dev \<Rightarrow> (exn + rat list) \<times> dev" where
  "sweep N [] ys s = (Inr ys, s)"
| "sweep N (i # is) ys s =
     (let s1 = setDac (lin_code i N) X_CH s
      in case read_height_avg 1 s1 of
           (Inl e, s2) \<Rightarrow> (Inl e, s2)
         | (Inr y, s2) \<Rightarrow> sweep N is (ys @ [y]) s2)"

text \<open>\<^verbatim>\<open>range(N)\<close> and \<^verbatim>\<open>range(N-1, -1, -1)\<close>.\<close>

definition range_up :: "int \<Rightarrow> int list" where
  "range_up N = [0..N - 1]"

definition range_down :: "int \<Rightarrow> int list" where
  "range_down N = rev [0..N - 1]"

definition cmd_LINE :: "kv \<Rightarrow> dev \<Rightarrow> exn option \<times> dev" where
  "cmd_LINE kv s =
     (if kv ''N'' = None \<or> kv ''IDX'' = None
      then (None, print (ErrLine 30 ''LINE requires N and IDX'') s)
      else
        (case py_int (the (kv ''N'')) of
           Inl e \<Rightarrow> (Some e, s)
         | Inr N \<Rightarrow>
             (case py_int (the (kv ''IDX'')) of
                Inl e \<Rightarrow> (Some e, s)
              | Inr IDX \<Rightarrow>
                  if N < 2 \<or> N > 4096 then (None, print (ErrLine 31 ''N out of range'') s)
                  else if IDX < 0 \<or> IDX \<ge> N
                  then (None, print (ErrLine 32 ''IDX out of range'') s)
                  else
                    (let s1 = s\<lparr>frame_N := N, cur_line_idx := IDX,
                                 cur_dir := (if IDX mod 2 = 0 then 1 else - 1)\<rparr>;
                         y_code = lin_code IDX N;
                         s2 = setDac y_code Y_CH s1;
                         s3 = setDac (bias_code s2) BIAS_CH s2;
                         x_iter = (if cur_dir s3 > 0 then range_up N else range_down N)
                     in case sweep N x_iter [] s3 of
                          (Inl e, s4) \<Rightarrow> (Some e, s4)
                        | (Inr ys, s4) \<Rightarrow>
                            (None, print (CsvLine ys)
                                     (print (LineOkLine N IDX (cur_dir s4)) s4))))))"

section \<open>Firmware: the command loop\<close>

definition dispatch :: "string \<Rightarrow> kv \<Rightarrow> dev \<Rightarrow> exn option \<times> dev" where
  "dispatch cmd kv s =
     (if cmd = ''START'' then cmd_START kv s
      else if cmd = ''LINE'' then cmd_LINE kv s
      else if cmd = ''POINT'' then cmd_POINT kv s
      else if cmd = ''BIAS'' then cmd_BIAS kv s
      else if cmd = ''STATUS'' then cmd_STATUS s
      else (None, print (ErrLine 1 ''unknown command'') s))"

text \<open>
  \<^verbatim>\<open>handle_line\<close>: the body of the \<^verbatim>\<open>try\<close> is \<open>dispatch\<close>; the \<^verbatim>\<open>except Exception\<close>
  clause turns an exception into the line \<^verbatim>\<open>ERR CODE=99\<close>. The first component of the
  result is the exception that leaves \<^verbatim>\<open>handle_line\<close>.
\<close>

definition handle_line :: "string \<Rightarrow> dev \<Rightarrow> exn option \<times> dev" where
  "handle_line line s =
     (let parts = filter (\<lambda>p. p \<noteq> []) (py_split (strip line))
      in case parts of
           [] \<Rightarrow> (None, s)
         | c # rest \<Rightarrow>
             (let cmd = upper c; kv = parse_kv rest
              in case dispatch cmd kv s of
                   (None, s1) \<Rightarrow> (None, s1)
                 | (Some e, s1) \<Rightarrow>
                     (None, print (ErrLine 99 (''exception: '' @ str_exn e)) s1)))"

text \<open>
  The main loop, run on the characters that arrive on \<^verbatim>\<open>sys.stdin\<close>: a line feed hands
  the buffer to \<^verbatim>\<open>handle_line\<close>, any other character is appended to it. An exception that
  leaves \<^verbatim>\<open>handle_line\<close> ends the loop in the outer handler, which zeroes the four DAC
  channels; the result then carries the exception.
\<close>

fun main_loop :: "string \<Rightarrow> string \<Rightarrow> dev \<Rightarrow> exn option \<times> string \<times> dev" where
  "main_loop [] buf s = (None, buf, s)"
| "main_loop (ch # rest) buf s =
     (if ch = CHR 0x0A
      then (case handle_line buf s of
              (None, s1) \<Rightarrow> main_loop rest [] s1
            | (Some e, s1) \<Rightarrow> (Some e, buf, setDac 0 3 (setDac 0 2 (setDac 0 1 (setDac 0 0 s1)))))
      else main_loop rest (buf @ [ch]) s)"

text \<open>The module's start: the variables' initial values, then the code before the loop.\<close>

definition init_dev :: "(nat \<Rightarrow> 16 word) \<Rightarrow> dev" where
  "init_dev src =
     \<lparr>frame_N = 128, cur_line_idx = 0, cur_dir = 1, bias_code = 20000,
      hw_log = [], adc_src = src, adc_cnt = 0, stdout = []\<rparr>"

definition boot :: "(nat \<Rightarrow> 16 word) \<Rightarrow> dev" where
  "boot src =
     (let s0 = init_dev src;
          s1 = setDac 32767 X_CH s0;
          s2 = setDac 32767 Y_CH s1;
          s3 = setDac 32767 2 s2;
          s4 = set_bias (bias_code s3) s3
      in print (OkLine ''pico-ready'') s4)"

section \<open>Host: decoding the bytes of a line\<close>

text \<open>
  The host (\<^verbatim>\<open>GUIserial.py\<close>) runs on CPython. A \<^verbatim>\<open>bytes\<close> value is a \<open>string\<close> (one
  \<open>char\<close> per byte); a \<^verbatim>\<open>str\<close> is the list of its code points.

  \<open>utf8_step\<close> reads one character from the front of a non-empty byte sequence: the code
  point, or nothing when the bytes are not well-formed UTF-8, and the number of bytes
  this takes (for malformed bytes, the longest prefix that could start a character).
  \<^verbatim>\<open>decode("utf-8")\<close> raises on the first malformed sequence;
  \<^verbatim>\<open>decode("utf-8", errors="replace")\<close> puts U+FFFD in its place and goes on.
\<close>

type_synonym ustr = "nat list"

definition lit :: "string \<Rightarrow> ustr" where
  "lit s = map of_char s"

definition is_cont :: "nat \<Rightarrow> bool" where
  "is_cont c \<longleftrightarrow> 128 \<le> c \<and> c \<le> 191"

definition second_ok :: "nat \<Rightarrow> nat \<Rightarrow> bool" where
  "second_ok b c \<longleftrightarrow>
     (if b = 224 then 160 \<le> c \<and> c \<le> 191
      else if b = 237 then 128 \<le> c \<and> c \<le> 159
      else if b = 240 then 144 \<le> c \<and> c \<le> 191
      else if b = 244 then 128 \<le> c \<and> c \<le> 143
      else is_cont c)"

fun utf8_step :: "nat \<Rightarrow> nat list \<Rightarrow> nat option \<times> nat" where
  "utf8_step b bs =
     (if b < 128 then (Some b, 1)
      else if 194 \<le> b \<and> b \<le> 223 then
        (case bs of
           [] \<Rightarrow> (None, 1)
         | c # _ \<Rightarrow> if is_cont c then (Some ((b - 192) * 64 + (c - 128)), 2) else (None, 1))
      else if 224 \<le> b \<and> b \<le> 239 then
        (case bs of
           [] \<Rightarrow> (None, 1)
         | c # cs \<Rightarrow>
             if \<not> second_ok b c then (None, 1)
             else (case cs of
                     [] \<Rightarrow> (None, 2)
                   | d # _ \<Rightarrow>
                       if is_cont d
                       then (Some ((b - 224) * 4096 + (c - 128) * 64 + (d - 128)), 3)
                       else (None, 2)))
      else if 240 \<le> b \<and> b \<le> 244 then
        (case bs of
           [] \<Rightarrow> (None, 1)
         | c # cs \<Rightarrow>
             if \<not> second_ok b c then (None, 1)
             else (case cs of
                     [] \<Rightarrow> (None, 2)
                   | d # ds \<Rightarrow>
                       if \<not> is_cont d then (None, 2)
                       else (case ds of
                               [] \<Rightarrow> (None, 3)
                             | e # _ \<Rightarrow>
                                 if is_cont e
                                 then (Some ((b - 240) * 262144 + (c - 128) * 4096
                                             + (d - 128) * 64 + (e - 128)), 4)
                                 else (None, 3))))
      else (None, 1))"

fun utf8_replace :: "nat list \<Rightarrow> ustr" where
  "utf8_replace [] = []"
| "utf8_replace (b # bs) =
     (case utf8_step b bs of
        (Some cp, k) \<Rightarrow> cp # utf8_replace (drop (k - 1) bs)
      | (None, k) \<Rightarrow> 65533 # utf8_replace (drop (k - 1) bs))"

fun utf8_strict :: "nat list \<Rightarrow> ustr option" where
  "utf8_strict [] = Some []"
| "utf8_strict (b # bs) =
     (case utf8_step b bs of
        (Some cp, k) \<Rightarrow> map_option ((#) cp) (utf8_strict (drop (k - 1) bs))
      | (None, k) \<Rightarrow> None)"

definition decode_replace :: "string \<Rightarrow> ustr" where
  "decode_replace line = utf8_replace (map of_char line)"

definition decode_strict :: "string \<Rightarrow> ustr option" where
  "decode_strict line = utf8_strict (map of_char line)"

text \<open>
  The \<^verbatim>\<open>str\<close> built-ins of the host. White space is what \<^verbatim>\<open>str.isspace\<close> accepts.
  \<^verbatim>\<open>upper()\<close> is written out for the letters \<open>a\<close> to \<open>z\<close> and for the two other
  code points whose upper case is an ASCII letter (U+0131 and U+017F); the upper case of
  the remaining code points is not modelled (none of them turns a token into one of the
  keywords compared below).
\<close>

definition uspace :: "nat \<Rightarrow> bool" where
  "uspace c \<longleftrightarrow>
     (9 \<le> c \<and> c \<le> 13) \<or> (28 \<le> c \<and> c \<le> 32) \<or> c = 133 \<or> c = 160 \<or> c = 5760
     \<or> (8192 \<le> c \<and> c \<le> 8202) \<or> c = 8232 \<or> c = 8233 \<or> c = 8239 \<or> c = 8287
     \<or> c = 12288"

definition uupper_cp :: "nat \<Rightarrow> nat" where
  "uupper_cp c =
     (if 97 \<le> c \<and> c \<le> 122 then c - 32
      else if c = 305 then 73 else if c = 383 then 83 else c)"

definition uupper :: "ustr \<Rightarrow> ustr" where
  "uupper t = map uupper_cp t"

text \<open>
  \<^verbatim>\<open>int(s)\<close> and \<^verbatim>\<open>float(s)\<close> of the host are parameters of the functions below
  (\<open>pyint\<close>, \<open>pyfloat\<close>): what they accept depends on the interpreter at hand (its
  table of decimal digits, its limit on the number of digits, its floating-point
  format), and the properties hold for every such function.

  \<open>py_int_u\<close> is the instance of \<^verbatim>\<open>int(s)\<close> used where a concrete line is decoded: it
  reads every decimal digit of Unicode 14 as the ASCII digit of its value (the digits
  come in runs of ten, \<open>digit_zeros\<close> lists their zeros) and then reads the text as the
  firmware's \<open>py_int\<close> does. A limit on the number of digits is not part of it.
\<close>

definition digit_zeros :: "nat list" where
  "digit_zeros =
     [48, 1632, 1776, 1984, 2406, 2534, 2662, 2790, 2918, 3046, 3174, 3302, 3430, 3558,
      3664, 3792, 3872, 4160, 4240, 6112, 6160, 6470, 6608, 6784, 6800, 6992, 7088, 7232,
      7248, 42528, 43216, 43264, 43472, 43504, 43600, 44016, 65296, 66720, 68912, 69734,
      69872, 69942, 70096, 70384, 70736, 70864, 71248, 71360, 71472, 71904, 72016, 72784,
      73040, 73120, 92768, 92864, 93008, 120782, 120792, 120802, 120812, 120822, 123200,
      123632, 125264, 130032]"

definition decimal_digit :: "nat \<Rightarrow> nat option" where
  "decimal_digit c =
     (case filter (\<lambda>z. z \<le> c \<and> c \<le> z + 9) digit_zeros of
        [] \<Rightarrow> None
      | z # _ \<Rightarrow> Some (c - z))"

definition to_ascii :: "nat \<Rightarrow> char option" where
  "to_ascii c =
     (if c < 128 then Some (char_of c)
      else map_option (\<lambda>d. char_of (48 + d)) (decimal_digit c))"

definition py_int_u :: "ustr \<Rightarrow> exn + int" where
  "py_int_u t =
     (case those (map to_ascii t) of
        None \<Rightarrow> Inl (ValueError ''invalid literal for int() with base 10'')
      | Some s \<Rightarrow> py_int s)"

text \<open>\<^verbatim>\<open>s.split(sep)\<close> with a separator: every piece between separators, empty ones
  included.\<close>

fun split_sep :: "'a \<Rightarrow> 'a list \<Rightarrow> 'a list \<Rightarrow> 'a list list" where
  "split_sep sep cur [] = [cur]"
| "split_sep sep cur (c # cs) =
     (if c = sep then cur # split_sep sep [] cs else split_sep sep (cur @ [c]) cs)"

section \<open>Host: headers and payloads\<close>

text \<open>The dictionary \<^verbatim>\<open>_parse_header\<close> returns, by its \<^verbatim>\<open>"kind"\<close>.\<close>

datatype header =
    HLine int int int     \<comment> \<open>\<^verbatim>\<open>{"kind": "line", "N": .., "IDX": .., "DIR": ..}\<close>\<close>
  | HPoint int            \<comment> \<open>\<^verbatim>\<open>{"kind": "point", "COUNT": ..}\<close>\<close>
  | HOk ustr              \<comment> \<open>\<^verbatim>\<open>{"kind": "ok", "raw": txt}\<close>\<close>
  | HErr ustr             \<comment> \<open>\<^verbatim>\<open>{"kind": "err", "raw": txt}\<close>\<close>
  | HUnknown ustr         \<comment> \<open>\<^verbatim>\<open>{"kind": "unknown", "raw": txt}\<close>\<close>

type_synonym ukv = "ustr \<rightharpoonup> ustr"

definition usplit_eq :: "ustr \<Rightarrow> ustr \<times> ustr" where
  "usplit_eq p = (takeWhile (\<lambda>c. c \<noteq> 61) p, tl (dropWhile (\<lambda>c. c \<noteq> 61) p))"

fun header_kv :: "ukv \<Rightarrow> ustr list \<Rightarrow> ukv" where
  "header_kv kv [] = kv"
| "header_kv kv (p # ps) =
     header_kv
       (if 61 \<in> set p then (let (k, v) = usplit_eq p in kv(uupper k \<mapsto> v)) else kv) ps"

text \<open>\<^verbatim>\<open>kv.get(key, default)\<close>.\<close>

definition kv_get :: "ukv \<Rightarrow> string \<Rightarrow> string \<Rightarrow> ustr" where
  "kv_get kv key dflt = (case kv (lit key) of None \<Rightarrow> lit dflt | Some v \<Rightarrow> v)"

text \<open>\<^verbatim>\<open>parts[1].upper() == "OK"\<close>, where \<open>rest\<close> is \<^verbatim>\<open>parts[1:]\<close>: an index error when
  the line has one token only.\<close>

definition second_is_ok :: "ustr list \<Rightarrow> exn + bool" where
  "second_is_ok rest =
     (case rest of [] \<Rightarrow> Inl IndexError | p # _ \<Rightarrow> Inr (uupper p = lit ''OK''))"

definition line_header :: "(ustr \<Rightarrow> exn + int) \<Rightarrow> ukv \<Rightarrow> exn + header option" where
  "line_header pyint kv =
     (case pyint (kv_get kv ''N'' ''0'') of
        Inl e \<Rightarrow> Inl e
      | Inr n \<Rightarrow>
          (case pyint (kv_get kv ''IDX'' ''0'') of
             Inl e \<Rightarrow> Inl e
           | Inr i \<Rightarrow>
               (case pyint (kv_get kv ''DIR'' ''+1'') of
                  Inl e \<Rightarrow> Inl e
                | Inr d \<Rightarrow> Inr (Some (HLine n i d)))))"

definition point_header :: "(ustr \<Rightarrow> exn + int) \<Rightarrow> ukv \<Rightarrow> exn + header option" where
  "point_header pyint kv =
     (case pyint (kv_get kv ''COUNT'' ''0'') of
        Inl e \<Rightarrow> Inl e
      | Inr c \<Rightarrow> Inr (Some (HPoint c)))"

text \<open>The body of the \<^verbatim>\<open>try\<close> in \<^verbatim>\<open>_parse_header\<close>: the header, \<^verbatim>\<open>None\<close> for a line
  without tokens, or the exception raised.\<close>

definition parse_header_try :: "(ustr \<Rightarrow> exn + int) \<Rightarrow> string \<Rightarrow> exn + header option" where
  "parse_header_try pyint hline =
     (let txt = strip_with uspace (decode_replace hline);
          parts = split_ws uspace [] txt
      in case parts of
           [] \<Rightarrow> Inr None
         | h # rest \<Rightarrow>
             (let head = uupper h; kv = header_kv Map.empty rest
              in case (if head = lit ''LINE'' then second_is_ok rest else Inr False) of
                   Inl e \<Rightarrow> Inl e
                 | Inr True \<Rightarrow> line_header pyint kv
                 | Inr False \<Rightarrow>
                     (case (if head = lit ''POINT'' then second_is_ok rest else Inr False) of
                        Inl e \<Rightarrow> Inl e
                      | Inr True \<Rightarrow> point_header pyint kv
                      | Inr False \<Rightarrow>
                          if head = lit ''OK'' then Inr (Some (HOk txt))
                          else if head = lit ''ERR'' then Inr (Some (HErr txt))
                          else Inr (Some (HUnknown txt)))))"

text \<open>\<^verbatim>\<open>_parse_header\<close>: \<^verbatim>\<open>except Exception: return None\<close>.\<close>

definition parse_header :: "(ustr \<Rightarrow> exn + int) \<Rightarrow> string \<Rightarrow> header option" where
  "parse_header pyint hline =
     (case parse_header_try pyint hline of Inl e \<Rightarrow> None | Inr r \<Rightarrow> r)"

text \<open>
  \<^verbatim>\<open>_parse_csv_floats\<close>. \<^verbatim>\<open>float(t)\<close> is the parameter \<open>pyfloat\<close>, with \<open>None\<close> where
  \<^verbatim>\<open>float\<close> raises; \<open>'f\<close> is the type of floating-point numbers. \<open>csv_tokens\<close> is the list
  the comprehension runs over; the exceptions of the body (the decoding error and the
  error of \<^verbatim>\<open>float\<close>) all end in \<^verbatim>\<open>return None\<close>.
\<close>

definition csv_tokens :: "ustr \<Rightarrow> ustr list" where
  "csv_tokens txt = filter (\<lambda>t. t \<noteq> []) (split_sep 44 [] (strip_with uspace txt))"

definition parse_csv_floats :: "(ustr \<Rightarrow> 'f option) \<Rightarrow> string \<Rightarrow> int option \<Rightarrow> 'f list option" where
  "parse_csv_floats pyfloat line expected =
     (case decode_strict line of
        None \<Rightarrow> None
      | Some txt \<Rightarrow> those (map pyfloat (csv_tokens txt)))"

section \<open>Host: the consumer tick\<close>

text \<open>
  The tuples on \<^verbatim>\<open>data_q\<close> are frames. Of \<^verbatim>\<open>STMApp\<close> the model keeps the fields the
  tick reads and writes: the scan state, the rolling buffer (a deque of at most 10000
  values), the topography (\<open>None\<close> before the first scan; a cell is \<open>None\<close> where the
  array holds NaN), the value of the progress bar and the two queues. Drawing
  (\<^verbatim>\<open>redraw\<close>, the plot and histogram updates, the widgets) and the re-arming of the
  timer are left out.
\<close>

datatype 'f frame = LineFrame "'f list" int int | PointFrame "'f list"

record 'f app =
  scanning :: bool
  linear_size :: int
  line_idx :: int
  direction :: int
  y_buffer :: "'f list"
  topo :: "'f option list list option"
  progress :: rat
  tx_q :: "string list"
  data_q :: "'f frame list"

text \<open>\<^verbatim>\<open>str(n)\<close> of an integer, as the f-strings of the requests use it.\<close>

fun str_nat :: "nat \<Rightarrow> string" where
  "str_nat n =
     (if n < 10 then [char_of (48 + n)] else str_nat (n div 10) @ [char_of (48 + n mod 10)])"

definition str_int :: "int \<Rightarrow> string" where
  "str_int i = (if i < 0 then CHR ''-'' # str_nat (nat (- i)) else str_nat (nat i))"

definition send :: "string \<Rightarrow> 'f app \<Rightarrow> 'f app" where
  "send s a = a\<lparr>tx_q := tx_q a @ [s]\<rparr>"

definition request_start :: "'f app \<Rightarrow> 'f app" where
  "request_start a =
     send (''BIAS CODE='' @ str_int 20000) (send (''START N='' @ str_int (linear_size a)) a)"

definition request_next_line :: "'f app \<Rightarrow> 'f app" where
  "request_next_line a =
     send (''LINE N='' @ str_int (linear_size a) @ '' IDX='' @ str_int (line_idx a)) a"

text \<open>\<^verbatim>\<open>reset_topography(N)\<close>: \<^verbatim>\<open>np.full((N, N), np.nan)\<close> raises for a negative \<open>N\<close>.\<close>

definition reset_topography :: "int \<Rightarrow> 'f app \<Rightarrow> exn + 'f app" where
  "reset_topography N a =
     (if N < 0 then Inl (ValueError ''negative dimensions are not allowed'')
      else Inr (a\<lparr>topo := Some (replicate (nat N) (replicate (nat N) None))\<rparr>))"

definition toggle_scan :: "'f app \<Rightarrow> exn + 'f app" where
  "toggle_scan a =
     (if \<not> scanning a then
        (case reset_topography (linear_size a)
                (a\<lparr>scanning := True, progress := 0, line_idx := 0, direction := 1\<rparr>) of
           Inl e \<Rightarrow> Inl e
         | Inr a1 \<Rightarrow> Inr (request_next_line (request_start (a1\<lparr>y_buffer := []\<rparr>))))
      else Inr (a\<lparr>scanning := False, progress := 0\<rparr>))"

text \<open>
  \<^verbatim>\<open>update_topography_line(y, line_idx, direction)\<close> on the rows \<open>tp\<close> of the topography.
  A line whose length differs from the number of rows is resampled by
  \<^verbatim>\<open>np.interp(np.linspace(0, len(y)-1, N), np.arange(len(y)), y)\<close>, a floating-point
  computation of the library: it is the parameter \<open>interp N y\<close>. For an empty \<open>y\<close>
  \<^verbatim>\<open>np.interp\<close> raises \<^verbatim>\<open>ValueError\<close> (array of sample points is empty). The row index
  follows the indexing of arrays: a negative index counts from the end.
\<close>

definition update_topography_line ::
  "(nat \<Rightarrow> 'f list \<Rightarrow> 'f list) \<Rightarrow> 'f list \<Rightarrow> int \<Rightarrow> int \<Rightarrow> 'f option list list
     \<Rightarrow> exn + 'f option list list" where
  "update_topography_line interp y idx dir tp =
     (let N = length tp
      in if length y \<noteq> N \<and> y = [] then Inl (ValueError ''array of sample points is empty'')
         else
           (let y1 = (if length y \<noteq> N then interp N y else y);
                row = (if idx < 0 then idx + int N else idx)
            in if row < 0 \<or> row \<ge> int N then Inl IndexError
               else Inr (tp[nat row := map Some (if dir \<ge> 0 then y1 else rev y1)])))"

text \<open>\<^verbatim>\<open>deque(maxlen=m).extend(ys)\<close>: the oldest values leave at the front.\<close>

definition deque_extend :: "nat \<Rightarrow> 'a list \<Rightarrow> 'a list \<Rightarrow> 'a list" where
  "deque_extend m buf ys = (let zs = buf @ ys in drop (length zs - m) zs)"

definition append_time_series :: "'f list \<Rightarrow> 'f app \<Rightarrow> 'f app" where
  "append_time_series y a = a\<lparr>y_buffer := deque_extend 10000 (y_buffer a) y\<rparr>"

text \<open>The first loop of \<^verbatim>\<open>_poll_device\<close>: the queue is read until it is empty;
  \<open>ll\<close> and \<open>lp\<close> are \<^verbatim>\<open>last_line\<close> and \<^verbatim>\<open>last_point\<close>.\<close>

fun drain ::
  "'f frame list \<Rightarrow> ('f list \<times> int \<times> int) option \<Rightarrow> 'f list option
     \<Rightarrow> ('f list \<times> int \<times> int) option \<times> 'f list option" where
  "drain [] ll lp = (ll, lp)"
| "drain (LineFrame y idx dir # fs) ll lp = drain fs (Some (y, idx, dir)) lp"
| "drain (PointFrame y # fs) ll lp = drain fs ll (Some y)"

text \<open>The branch of \<^verbatim>\<open>_poll_device\<close> for \<^verbatim>\<open>last_line is not None\<close>.\<close>

definition on_line ::
  "(nat \<Rightarrow> 'f list \<Rightarrow> 'f list) \<Rightarrow> 'f list \<Rightarrow> int \<Rightarrow> int \<Rightarrow> 'f app \<Rightarrow> exn + 'f app" where
  "on_line interp y idx dir a =
     (case (case topo a of
              None \<Rightarrow> Inr a
            | Some tp \<Rightarrow>
                if 0 \<le> idx \<and> idx < int (length tp)
                then (case update_topography_line interp y idx dir tp of
                        Inl e \<Rightarrow> Inl e
                      | Inr tp1 \<Rightarrow> Inr (a\<lparr>topo := Some tp1\<rparr>))
                else Inr a) of
        Inl e \<Rightarrow> Inl e
      | Inr a1 \<Rightarrow>
          (let a2 = append_time_series y a1
           in if linear_size a2 = 0 then Inl ZeroDivisionError
              else
                (let a3 = a2\<lparr>progress := 100 * (of_int (idx + 1)) / of_int (linear_size a2)\<rparr>
                 in if scanning a3 then
                      (if idx + 1 < linear_size a3
                       then Inr (request_next_line
                                   (a3\<lparr>direction := - direction a3, line_idx := idx + 1\<rparr>))
                       else toggle_scan a3)
                    else Inr a3)))"

definition poll_device :: "(nat \<Rightarrow> 'f list \<Rightarrow> 'f list) \<Rightarrow> 'f app \<Rightarrow> exn + 'f app" where
  "poll_device interp a =
     (let (last_line, last_point) = drain (data_q a) None None;
          a0 = a\<lparr>data_q := []\<rparr>
      in case last_line of
           Some (y, idx, dir) \<Rightarrow> on_line interp y idx dir a0
         | None \<Rightarrow>
             (case last_point of
                Some p \<Rightarrow> if \<not> scanning a0 then Inr (append_time_series p a0) else Inr a0
              | None \<Rightarrow> Inr a0))"

section \<open>Notions used to state the properties of the firmware\<close>

text \<open>The height that \<^verbatim>\<open>read_height_avg(1)\<close> returns for one conversion \<open>w\<close>.\<close>

definition height_of :: "16 word \<Rightarrow> rat" where
  "height_of w = (of_int (uint w) - 32768) / 4096"

text \<open>What \<^verbatim>\<open>setDac(lin_code(i, N), X_CH)\<close> clocks out: the X actuator sent to pixel \<open>i\<close>.\<close>

definition x_packet :: "int \<Rightarrow> int \<Rightarrow> hw_event" where
  "x_packet N i = DacShift (word_of_int (dac_packet (lin_code i N) X_CH))"

text \<open>The session of the firmware.\<close>

definition session :: "dev \<Rightarrow> int \<times> int \<times> int \<times> int" where
  "session s = (frame_N s, cur_line_idx s, cur_dir s, bias_code s)"

text \<open>The bias code is a 16-bit unsigned value.\<close>

definition bias_in_range :: "dev \<Rightarrow> bool" where
  "bias_in_range s \<longleftrightarrow> 0 \<le> bias_code s \<and> bias_code s \<le> 65535"

text \<open>
  The position mapping in the words of the specification:
  \<open>round(pos * 65535 / (N-1))\<close>, clamped to \<open>[0,65535]\<close>, and \<open>0\<close> for \<open>N \<le> 1\<close>.
\<close>

definition linCode_spec :: "int \<Rightarrow> int \<Rightarrow> int" where
  "linCode_spec pos N =
     (if N \<le> 1 then 0
      else max 0 (min 65535 (round (real_of_int pos * 65535 / real_of_int (N - 1)))))"

section \<open>Notions used to state the properties of the host\<close>

text \<open>The line frames and the point frames of a queue, in order of arrival.\<close>

fun line_frames :: "'f frame list \<Rightarrow> ('f list \<times> int \<times> int) list" where
  "line_frames [] = []"
| "line_frames (LineFrame y idx dir # fs) = (y, idx, dir) # line_frames fs"
| "line_frames (PointFrame y # fs) = line_frames fs"

fun point_frames :: "'f frame list \<Rightarrow> 'f list list" where
  "point_frames [] = []"
| "point_frames (LineFrame y idx dir # fs) = point_frames fs"
| "point_frames (PointFrame y # fs) = y # point_frames fs"

definition last_opt :: "'a list \<Rightarrow> 'a option" where
  "last_opt xs = (if xs = [] then None else Some (last xs))"

text \<open>The text of a header line as \<^verbatim>\<open>_parse_header\<close> sees it, and its tokens.\<close>

definition header_text :: "string \<Rightarrow> ustr" where
  "header_text hline = strip_with uspace (decode_replace hline)"

definition header_parts :: "string \<Rightarrow> ustr list" where
  "header_parts hline = split_ws uspace [] (header_text hline)"

text \<open>The values a token list gives to a key: those of the tokens \<open>key=value\<close> whose key
  is \<open>k\<close> in upper case, in order.\<close>

definition values_of :: "ustr \<Rightarrow> ustr list \<Rightarrow> ustr list" where
  "values_of k ps =
     map (\<lambda>p. snd (usplit_eq p))
       (filter (\<lambda>p. 61 \<in> set p \<and> uupper (fst (usplit_eq p)) = k) ps)"

text \<open>\<^verbatim>\<open>sep.join(pieces)\<close>.\<close>

fun join_with :: "'a \<Rightarrow> 'a list list \<Rightarrow> 'a list" where
  "join_with sep [] = []"
| "join_with sep [x] = x"
| "join_with sep (x # y # ys) = x @ sep # join_with sep (y # ys)"

text \<open>The text of a field of a header: the value of the last token \<open>key=value\<close> with
  that key, or the default when there is none.\<close>

definition field_of :: "string \<Rightarrow> string \<Rightarrow> ustr list \<Rightarrow> ustr" where
  "field_of key dflt ps =
     (case last_opt (values_of (lit key) ps) of None \<Rightarrow> lit dflt | Some v \<Rightarrow> v)"

text \<open>
  The instance of \<^verbatim>\<open>float(t)\<close> used where a concrete payload is decoded. It reads the
  numbers as \<^verbatim>\<open>'%.6f'\<close> and \<^verbatim>\<open>'%d'\<close> print them: an optional sign, digits, and
  optionally a point and digits, with a digit on at least one side of the point. The
  value is the decimal number written (\<^verbatim>\<open>float\<close> then rounds it to binary, which leaves
  numbers such as \<open>-8.0\<close> and \<open>0.5\<close> as they are). Exponents, \<^verbatim>\<open>inf\<close>, \<^verbatim>\<open>nan\<close> and
  grouped digits, which \<^verbatim>\<open>float\<close> also reads, are outside this instance.
\<close>

definition is_udigit :: "nat \<Rightarrow> bool" where
  "is_udigit c \<longleftrightarrow> 48 \<le> c \<and> c \<le> 57"

fun udigits_val :: "nat \<Rightarrow> ustr \<Rightarrow> nat" where
  "udigits_val acc [] = acc"
| "udigits_val acc (c # cs) = udigits_val (acc * 10 + (c - 48)) cs"

definition float_of_decimal :: "ustr \<Rightarrow> rat option" where
  "float_of_decimal t =
     (let (neg, r) =
        (case t of
           [] \<Rightarrow> (False, [])
         | c # cs \<Rightarrow> if c = 45 then (True, cs) else if c = 43 then (False, cs) else (False, t));
          ip = takeWhile is_udigit r;
          r2 = dropWhile is_udigit r;
          fp = (case r2 of [] \<Rightarrow> Some [] | c # cs \<Rightarrow>
                  if c = 46 \<and> list_all is_udigit cs then Some cs else None)
      in case fp of
           None \<Rightarrow> None
         | Some fd \<Rightarrow>
             if ip = [] \<and> fd = [] then None
             else
               (let v = rat_of_nat (udigits_val 0 (ip @ fd)) / 10 ^ length fd
                in Some (if neg then - v else v)))"

text \<open>A host in the middle of a scan of 4 by 4 pixels, nothing drawn yet.\<close>

definition scanning_app :: "rat frame list \<Rightarrow> rat app" where
  "scanning_app q =
     \<lparr>scanning = True, linear_size = 4, line_idx = 0, direction = 1, y_buffer = [],
      topo = Some (replicate 4 (replicate 4 None)), progress = 0, tx_q = [], data_q = q\<rparr>"

section \<open>The position mapping\<close>

lemma clamp_u16_mono: "x \<le> y \<Longrightarrow> clamp_u16 x \<le> clamp_u16 y"
  by (simp add: clamp_u16_def)

lemma clamp_u16_max_min: "clamp_u16 x = max 0 (min 65535 x)"
  by (simp add: clamp_u16_def)

lemma lin_code_range: "0 \<le> lin_code pos N \<and> lin_code pos N \<le> 65535"
  by (simp add: lin_code_def clamp_u16_def)

lemma lin_code_mono: "p \<le> q \<Longrightarrow> lin_code p N \<le> lin_code q N"
  by (simp add: lin_code_def clamp_u16_mono zdiv_mono1)

lemma lin_code_last: "2 \<le> N \<Longrightarrow> lin_code (N - 1) N = 65535"
proof -
  assume n: "2 \<le> N"
  have "N - 1 \<noteq> 0" using n by simp
  then have "((N - 1) * 65535) div (N - 1) = 65535" by (rule nonzero_mult_div_cancel_left)
  then show ?thesis using n unfolding lin_code_def clamp_u16_def by simp
qed

text \<open>
  C4, as stated, fails: \<^verbatim>\<open>lin_code\<close> divides with \<^verbatim>\<open>//\<close>, which rounds down. For pixel 1
  of 3 the quotient is 32767.5: the firmware gives 32767, rounding gives 32768.
\<close>

theorem lin_code_not_rounded: "lin_code 1 3 = 32767 \<and> linCode_spec 1 3 = 32768"
  by (simp add: lin_code_def linCode_spec_def clamp_u16_def round_def)

text \<open>
  C4, amended: for every integer \<open>pos\<close> and every \<open>N\<close>, \<^verbatim>\<open>lin_code(pos, N)\<close> is the floor
  of \<open>pos * 65535 / (N-1)\<close> clamped to \<open>[0,65535]\<close>, and \<open>0\<close> for \<open>N \<le> 1\<close>.
\<close>

theorem lin_code_floor:
  "lin_code pos N =
     (if N \<le> 1 then 0
      else max 0 (min 65535 \<lfloor>real_of_int pos * 65535 / real_of_int (N - 1)\<rfloor>))"
proof -
  have "\<lfloor>real_of_int (pos * 65535) / real_of_int (N - 1)\<rfloor> = (pos * 65535) div (N - 1)"
    by (rule floor_divide_of_int_eq)
  then have "\<lfloor>real_of_int pos * 65535 / real_of_int (N - 1)\<rfloor> = (pos * 65535) div (N - 1)"
    by simp
  then show ?thesis
    by (simp only: lin_code_def clamp_u16_max_min)
qed

text \<open>
  C5: for \<open>N\<close> in \<open>[2,4096]\<close> and pixels \<open>p \<le> q\<close> in \<open>[0,N)\<close>, the code of \<open>p\<close> lies in
  \<open>[0,65535]\<close> and is at most the code of \<open>q\<close>; pixel \<open>0\<close> maps to \<open>0\<close> and pixel \<open>N-1\<close>
  to \<open>65535\<close>.
\<close>

theorem lin_code_pixels:
  assumes "2 \<le> N" and "N \<le> 4096" and "0 \<le> p" and "p \<le> q" and "q < N"
  shows "0 \<le> lin_code p N \<and> lin_code p N \<le> 65535 \<and> lin_code p N \<le> lin_code q N
         \<and> lin_code 0 N = 0 \<and> lin_code (N - 1) N = 65535"
  using assms lin_code_range [of p N] lin_code_mono [of p q N] lin_code_last [of N]
  by (simp add: lin_code_def clamp_u16_def)

theorem lin_code_pixels_witness:
  "(2::int) \<le> 4 \<and> (4::int) \<le> 4096 \<and> (0::int) \<le> 1 \<and> (1::int) \<le> 2 \<and> (2::int) < 4
   \<and> 0 \<le> lin_code 1 4 \<and> lin_code 1 4 \<le> 65535 \<and> lin_code 1 4 \<le> lin_code 2 4
   \<and> lin_code 0 4 = 0 \<and> lin_code (4 - 1) 4 = 65535"
  using lin_code_pixels [of 4 1 2] by simp

section \<open>The firmware: acquisition loops\<close>

lemma read_height_avg_1:
  "read_height_avg 1 s =
     (Inr (height_of (adc_src s (adc_cnt s))),
      s\<lparr>hw_log := hw_log s @ [AdcConv (adc_src s (adc_cnt s))], adc_cnt := Suc (adc_cnt s)\<rparr>)"
  by (simp add: read_height_avg_def getADC_def height_of_def Let_def)

lemma read_height_avg_Suc0:
  "read_height_avg (Suc 0) s =
     (Inr (height_of (adc_src s (adc_cnt s))),
      s\<lparr>hw_log := hw_log s @ [AdcConv (adc_src s (adc_cnt s))], adc_cnt := Suc (adc_cnt s)\<rparr>)"
  using read_height_avg_1 [of s] by simp

lemma sweep_eq:
  "sweep N xs ys s =
     (Inr (ys @ map (\<lambda>k. height_of (adc_src s (adc_cnt s + k))) [0..<length xs]),
      s\<lparr>hw_log := hw_log s @
           concat (map (\<lambda>(i, k). [x_packet N i, AdcConv (adc_src s (adc_cnt s + k))])
                     (zip xs [0..<length xs])),
        adc_cnt := adc_cnt s + length xs\<rparr>)"
proof (induction xs arbitrary: ys s)
  case Nil
  show ?case by simp
next
  case (Cons i xs)
  have z: "zip (i # xs) [0..<length (i # xs)] = (i, 0) # zip xs (map Suc [0..<length xs])"
    by (simp add: upt_conv_Cons map_Suc_upt del: upt_Suc)
  have m: "[0..<length (i # xs)] = 0 # map Suc [0..<length xs]"
    by (simp add: upt_conv_Cons map_Suc_upt del: upt_Suc)
  show ?case
    unfolding z m
    by (simp add: Cons.IH read_height_avg_Suc0 setDac_def dacShiftOut_def x_packet_def
        zip_map2 comp_def case_prod_unfold Let_def del: upt_Suc)
qed

lemma point_loop_eq:
  "point_loop n ys s =
     (Inr (ys @ map (\<lambda>k. height_of (adc_src s (adc_cnt s + k))) [0..<n]),
      s\<lparr>hw_log := hw_log s @ map (\<lambda>k. AdcConv (adc_src s (adc_cnt s + k))) [0..<n],
        adc_cnt := adc_cnt s + n\<rparr>)"
proof (induction n arbitrary: ys s)
  case 0
  show ?case by simp
next
  case (Suc n)
  have m: "[0..<Suc n] = 0 # map Suc [0..<n]"
    by (simp add: upt_conv_Cons map_Suc_upt del: upt_Suc)
  show ?case
    unfolding m
    by (simp add: Suc.IH read_height_avg_Suc0 comp_def del: upt_Suc)
qed

text \<open>What each command leaves alone.\<close>

lemma and_65535_mod: "(c::int) AND 65535 = c mod 65536"
proof -
  have "c AND mask 16 = take_bit 16 c" by (simp add: take_bit_eq_mask)
  then show ?thesis by (simp add: take_bit_eq_mod mask_eq_exp_minus_1)
qed

lemma set_bias_eq:
  "set_bias c s =
     s\<lparr>bias_code := c mod 65536,
       hw_log := hw_log s @ [DacShift (word_of_int (dac_packet (c mod 65536) BIAS_CH))]\<rparr>"
  by (simp add: set_bias_def setDac_def dacShiftOut_def Let_def and_65535_mod)

lemma cmd_LINE_bias: "bias_code (snd (cmd_LINE kv s)) = bias_code s"
  by (simp add: cmd_LINE_def sweep_eq setDac_def dacShiftOut_def print_def Let_def
      split: sum.split)

lemma cmd_POINT_bias: "bias_code (snd (cmd_POINT kv s)) = bias_code s"
  by (simp add: cmd_POINT_def point_loop_eq print_def Let_def split: sum.split)

lemma cmd_START_bias: "bias_code (snd (cmd_START kv s)) = bias_code s"
  by (simp add: cmd_START_def print_def split: option.split sum.split)

lemma mod_65536_range: "0 \<le> (c::int) mod 65536 \<and> c mod 65536 \<le> 65535"
proof -
  have "c mod 65536 < 65536" by (rule pos_mod_bound) simp
  then show ?thesis by simp
qed

lemma cmd_BIAS_bias: "bias_in_range s \<Longrightarrow> bias_in_range (snd (cmd_BIAS kv s))"
  by (simp add: cmd_BIAS_def print_def set_bias_eq bias_in_range_def mod_65536_range
      split: option.split sum.split)

lemma dispatch_bias: "bias_in_range s \<Longrightarrow> bias_in_range (snd (dispatch cmd kv s))"
  by (simp add: dispatch_def bias_in_range_def [of "snd (cmd_LINE kv s)"]
      bias_in_range_def [of "snd (cmd_POINT kv s)"] bias_in_range_def [of "snd (cmd_START kv s)"]
      cmd_LINE_bias cmd_POINT_bias cmd_START_bias cmd_BIAS_bias)
    (simp add: bias_in_range_def cmd_STATUS_def print_def)

lemma cmd_LINE_raise: "cmd_LINE kv s = (Some e, s1) \<Longrightarrow> s1 = s"
  by (simp add: cmd_LINE_def sweep_eq setDac_def dacShiftOut_def print_def Let_def
      split: sum.splits if_splits)

lemma cmd_POINT_raise: "cmd_POINT kv s = (Some e, s1) \<Longrightarrow> s1 = s"
  by (simp add: cmd_POINT_def point_loop_eq print_def Let_def split: sum.splits)

lemma cmd_START_raise: "cmd_START kv s = (Some e, s1) \<Longrightarrow> s1 = s"
  by (simp add: cmd_START_def split: option.splits sum.splits if_splits)

lemma cmd_BIAS_raise: "cmd_BIAS kv s = (Some e, s1) \<Longrightarrow> False"
  by (simp add: cmd_BIAS_def split: option.splits sum.splits)

lemma dispatch_raise_unchanged: "dispatch cmd kv s = (Some e, s1) \<Longrightarrow> s1 = s"
  by (auto simp add: dispatch_def cmd_STATUS_def split: if_splits
      dest: cmd_LINE_raise cmd_POINT_raise cmd_START_raise cmd_BIAS_raise)

lemma handle_line_fst: "fst (handle_line line s) = None"
  by (simp add: handle_line_def Let_def split: list.split option.split prod.split)

lemma handle_line_bias: "bias_in_range s \<Longrightarrow> bias_in_range (snd (handle_line line s))"
proof -
  assume b: "bias_in_range s"
  have "\<And>c kv. bias_in_range (snd (dispatch c kv s))" using b by (rule dispatch_bias)
  then have "\<And>c kv e s1. dispatch c kv s = (e, s1) \<Longrightarrow> bias_in_range s1"
    by (metis snd_conv)
  then show ?thesis using b
    by (auto simp add: handle_line_def Let_def bias_in_range_def print_def
        split: list.split option.split prod.split)
qed

lemma main_loop_fst: "fst (main_loop input buf s) = None"
proof (induction input arbitrary: buf s)
  case Nil
  show ?case by simp
next
  case (Cons ch rest)
  have "fst (handle_line buf s) = None" by (rule handle_line_fst)
  then obtain s1 where "handle_line buf s = (None, s1)" by (cases "handle_line buf s") simp
  then show ?case using Cons.IH by simp
qed

lemma main_loop_line:
  "CHR 0x0A \<notin> set line \<Longrightarrow>
   main_loop (line @ CHR 0x0A # rest) buf s = main_loop rest [] (snd (handle_line (buf @ line) s))"
proof (induction line arbitrary: buf)
  case Nil
  have "fst (handle_line buf s) = None" by (rule handle_line_fst)
  then obtain s1 where "handle_line buf s = (None, s1)" by (cases "handle_line buf s") simp
  then show ?case by simp
next
  case (Cons c line)
  then show ?case by auto
qed

section \<open>The firmware: one line of the raster\<close>

lemma cmd_LINE_ok:
  assumes "kv ''N'' = Some vn" and "py_int vn = Inr n"
    and "kv ''IDX'' = Some vi" and "py_int vi = Inr i"
    and "2 \<le> n" and "n \<le> 4096" and "0 \<le> i" and "i < n"
  shows "cmd_LINE kv s =
     (None,
      s\<lparr>frame_N := n, cur_line_idx := i, cur_dir := (if even i then 1 else - 1),
        hw_log := hw_log s @
          [DacShift (word_of_int (dac_packet (lin_code i n) Y_CH)),
           DacShift (word_of_int (dac_packet (bias_code s) BIAS_CH))] @
          concat (map (\<lambda>(x, k). [x_packet n x, AdcConv (adc_src s (adc_cnt s + k))])
                    (zip (if even i then [0..n - 1] else rev [0..n - 1]) [0..<nat n])),
        adc_cnt := adc_cnt s + nat n,
        stdout := stdout s @
          [LineOkLine n i (if even i then 1 else - 1),
           CsvLine (map (\<lambda>k. height_of (adc_src s (adc_cnt s + k))) [0..<nat n])]\<rparr>)"
  using assms
  by (simp add: cmd_LINE_def sweep_eq setDac_def dacShiftOut_def print_def Let_def
      range_up_def range_down_def even_iff_mod_2_eq_zero)

text \<open>
  C1: for a command \<^verbatim>\<open>LINE N=n IDX=i\<close> with \<open>n\<close> in \<open>[2,4096]\<close> and \<open>i\<close> in \<open>[0,n)\<close>,
  \<^verbatim>\<open>cmd_LINE\<close> sets the direction to \<open>+1\<close> for an even \<open>i\<close> and to \<open>-1\<close> for an odd one,
  whatever else the command line holds and whatever the direction was before, reports it
  in the header, and after positioning Y and re-asserting the bias sends the X actuator
  to the pixels \<open>0, \<dots>, n-1\<close> in that order for \<open>+1\<close> and in the reverse order for
  \<open>-1\<close>, taking one conversion at each.
\<close>

theorem cmd_LINE_direction:
  assumes "kv ''N'' = Some vn" and "py_int vn = Inr n"
    and "kv ''IDX'' = Some vi" and "py_int vi = Inr i"
    and "2 \<le> n" and "n \<le> 4096" and "0 \<le> i" and "i < n"
  shows "fst (cmd_LINE kv s) = None
    \<and> cur_dir (snd (cmd_LINE kv s)) = (if even i then 1 else - 1)
    \<and> stdout (snd (cmd_LINE kv s)) ! length (stdout s)
        = LineOkLine n i (if even i then 1 else - 1)
    \<and> hw_log (snd (cmd_LINE kv s)) =
        hw_log s @
        [DacShift (word_of_int (dac_packet (lin_code i n) Y_CH)),
         DacShift (word_of_int (dac_packet (bias_code s) BIAS_CH))] @
        concat (map (\<lambda>(x, k). [x_packet n x, AdcConv (adc_src s (adc_cnt s + k))])
                  (zip (if even i then [0..n - 1] else rev [0..n - 1]) [0..<nat n]))"
proof -
  note run = cmd_LINE_ok [OF assms, of s]
  have "fst (cmd_LINE kv s) = None"
    by (simp add: run)
  moreover have "cur_dir (snd (cmd_LINE kv s)) = (if even i then 1 else - 1)"
    by (simp add: run)
  moreover have "stdout (snd (cmd_LINE kv s)) ! length (stdout s)
        = LineOkLine n i (if even i then 1 else - 1)"
    by (simp add: run)
  moreover have "hw_log (snd (cmd_LINE kv s)) =
        hw_log s @
        [DacShift (word_of_int (dac_packet (lin_code i n) Y_CH)),
         DacShift (word_of_int (dac_packet (bias_code s) BIAS_CH))] @
        concat (map (\<lambda>(x, k). [x_packet n x, AdcConv (adc_src s (adc_cnt s + k))])
                  (zip (if even i then [0..n - 1] else rev [0..n - 1]) [0..<nat n]))"
    by (simp add: run)
  ultimately show ?thesis by (intro conjI)
qed

theorem cmd_LINE_direction_witness:
  "filter (\<lambda>p. p \<noteq> []) (py_split (strip ''LINE N=4 IDX=1 DIR=+1''))
     = [''LINE'', ''N=4'', ''IDX=1'', ''DIR=+1'']
   \<and> parse_kv [''N=4'', ''IDX=1'', ''DIR=+1''] ''N'' = Some ''4'' \<and> py_int ''4'' = Inr 4
   \<and> parse_kv [''N=4'', ''IDX=1'', ''DIR=+1''] ''IDX'' = Some ''1'' \<and> py_int ''1'' = Inr 1
   \<and> parse_kv [''N=4'', ''IDX=1'', ''DIR=+1''] ''DIR'' = Some ''+1''
   \<and> fst (cmd_LINE (parse_kv [''N=4'', ''IDX=1'', ''DIR=+1'']) (boot (\<lambda>k. 0))) = None
   \<and> cur_dir (snd (cmd_LINE (parse_kv [''N=4'', ''IDX=1'', ''DIR=+1'']) (boot (\<lambda>k. 0)))) = - 1
   \<and> stdout (snd (cmd_LINE (parse_kv [''N=4'', ''IDX=1'', ''DIR=+1'']) (boot (\<lambda>k. 0))))
        ! length (stdout (boot (\<lambda>k. 0))) = LineOkLine 4 1 (- 1)
   \<and> hw_log (snd (cmd_LINE (parse_kv [''N=4'', ''IDX=1'', ''DIR=+1'']) (boot (\<lambda>k. 0)))) =
        hw_log (boot (\<lambda>k. 0)) @
        [DacShift (word_of_int (dac_packet (lin_code 1 4) Y_CH)),
         DacShift (word_of_int (dac_packet (bias_code (boot (\<lambda>k. 0))) BIAS_CH)),
         x_packet 4 3, AdcConv 0, x_packet 4 2, AdcConv 0,
         x_packet 4 1, AdcConv 0, x_packet 4 0, AdcConv 0]"
proof -
  have t: "filter (\<lambda>p. p \<noteq> []) (py_split (strip ''LINE N=4 IDX=1 DIR=+1''))
     = [''LINE'', ''N=4'', ''IDX=1'', ''DIR=+1'']"
    by (simp add: strip_def strip_with_def py_split_def isspace_def)
  have k: "parse_kv [''N=4'', ''IDX=1'', ''DIR=+1''] ''N'' = Some ''4''"
    "parse_kv [''N=4'', ''IDX=1'', ''DIR=+1''] ''IDX'' = Some ''1''"
    "parse_kv [''N=4'', ''IDX=1'', ''DIR=+1''] ''DIR'' = Some ''+1''"
    by (simp_all add: parse_kv_def split_eq_def upper_def upper_char_def strip_def
        strip_with_def isspace_def)
  have p4: "py_int ''4'' = Inr 4" and p1: "py_int ''1'' = Inr 1"
    by (simp_all add: py_int_def int_literal_def is_digit_def)
  have src: "adc_src (boot (\<lambda>k. 0)) = (\<lambda>k. 0)"
    by (simp add: boot_def init_dev_def set_bias_def setDac_def dacShiftOut_def print_def Let_def)
  have up: "[0..<4] = [0, 1, 2, 3::nat]" by (simp add: upt_conv_Cons)
  have ut: "[0..(3::int)] = [0, 1, 2, 3]" by (simp add: upto_rec1)
  have "fst (cmd_LINE (parse_kv [''N=4'', ''IDX=1'', ''DIR=+1'']) (boot (\<lambda>k. 0))) = None
   \<and> cur_dir (snd (cmd_LINE (parse_kv [''N=4'', ''IDX=1'', ''DIR=+1'']) (boot (\<lambda>k. 0)))) = - 1
   \<and> stdout (snd (cmd_LINE (parse_kv [''N=4'', ''IDX=1'', ''DIR=+1'']) (boot (\<lambda>k. 0))))
        ! length (stdout (boot (\<lambda>k. 0))) = LineOkLine 4 1 (- 1)
   \<and> hw_log (snd (cmd_LINE (parse_kv [''N=4'', ''IDX=1'', ''DIR=+1'']) (boot (\<lambda>k. 0)))) =
        hw_log (boot (\<lambda>k. 0)) @
        [DacShift (word_of_int (dac_packet (lin_code 1 4) Y_CH)),
         DacShift (word_of_int (dac_packet (bias_code (boot (\<lambda>k. 0))) BIAS_CH)),
         x_packet 4 3, AdcConv 0, x_packet 4 2, AdcConv 0,
         x_packet 4 1, AdcConv 0, x_packet 4 0, AdcConv 0]"
    using cmd_LINE_direction [of "parse_kv [''N=4'', ''IDX=1'', ''DIR=+1'']" "''4''" 4 "''1''" 1
        "boot (\<lambda>k. 0)", OF k(1) p4 k(2) p1]
    by (simp add: src up ut)
  then show ?thesis using t k p4 p1 by (intro conjI) simp_all
qed

text \<open>
  C2: for the same commands, the reply is the header \<^verbatim>\<open>LINE OK\<close> with the \<open>N\<close>, \<open>IDX\<close> and
  \<open>DIR\<close> now held by the session, followed by one CSV line of exactly \<open>n\<close> heights. The
  heights are in acquisition order: the \<open>k\<close>-th one comes from the conversion taken at the
  \<open>k\<close>-th pixel visited, and the pixels visited for \<open>DIR=-1\<close> are those of the forward sweep
  in reverse.
\<close>

theorem cmd_LINE_reply:
  assumes "kv ''N'' = Some vn" and "py_int vn = Inr n"
    and "kv ''IDX'' = Some vi" and "py_int vi = Inr i"
    and "2 \<le> n" and "n \<le> 4096" and "0 \<le> i" and "i < n"
  shows
    "(let d = (if even i then 1 else - 1);
          xs = (if even i then [0..n - 1] else rev [0..n - 1]);
          ws = map (\<lambda>k. adc_src s (adc_cnt s + k)) [0..<nat n];
          s1 = snd (cmd_LINE kv s)
      in fst (cmd_LINE kv s) = None
         \<and> frame_N s1 = n \<and> cur_line_idx s1 = i \<and> cur_dir s1 = d
         \<and> stdout s1 = stdout s @ [LineOkLine n i d, CsvLine (map height_of ws)]
         \<and> int (length (map height_of ws)) = n
         \<and> length xs = length ws
         \<and> drop (length (hw_log s)) (hw_log s1) =
             [DacShift (word_of_int (dac_packet (lin_code i n) Y_CH)),
              DacShift (word_of_int (dac_packet (bias_code s) BIAS_CH))] @
             concat (map (\<lambda>(x, w). [x_packet n x, AdcConv w]) (zip xs ws)))"
proof -
  have z: "\<And>xs. zip xs (map (\<lambda>k. adc_src s (adc_cnt s + k)) [0..<nat n])
             = map (\<lambda>(x, k). (x, adc_src s (adc_cnt s + k))) (zip xs [0..<nat n])"
    by (simp add: zip_map2)
  show ?thesis
    using assms(5)
    by (simp add: cmd_LINE_ok [OF assms] Let_def z comp_def case_prod_unfold)
qed

theorem cmd_LINE_reply_witness:
  "[''N'' \<mapsto> ''4'', ''IDX'' \<mapsto> ''1''] ''N'' = Some ''4'' \<and> py_int ''4'' = Inr 4
   \<and> [''N'' \<mapsto> ''4'', ''IDX'' \<mapsto> ''1''] ''IDX'' = Some ''1'' \<and> py_int ''1'' = Inr 1
   \<and> fst (cmd_LINE [''N'' \<mapsto> ''4'', ''IDX'' \<mapsto> ''1''] (init_dev (\<lambda>k. 32768 + 4096 * word_of_nat k))) = None
   \<and> stdout (snd (cmd_LINE [''N'' \<mapsto> ''4'', ''IDX'' \<mapsto> ''1'']
                      (init_dev (\<lambda>k. 32768 + 4096 * word_of_nat k))))
       = [LineOkLine 4 1 (- 1), CsvLine [0, 1, 2, 3]]
   \<and> drop 0 (hw_log (snd (cmd_LINE [''N'' \<mapsto> ''4'', ''IDX'' \<mapsto> ''1'']
                      (init_dev (\<lambda>k. 32768 + 4096 * word_of_nat k)))))
       = [DacShift (word_of_int (dac_packet (lin_code 1 4) Y_CH)),
          DacShift (word_of_int (dac_packet 20000 BIAS_CH)),
          x_packet 4 3, AdcConv 32768, x_packet 4 2, AdcConv 36864,
          x_packet 4 1, AdcConv 40960, x_packet 4 0, AdcConv 45056]"
proof -
  have p4: "py_int ''4'' = Inr 4" and p1: "py_int ''1'' = Inr 1"
    by (simp_all add: py_int_def int_literal_def is_digit_def)
  have up: "[0..<4] = [0, 1, 2, 3::nat]" by (simp add: upt_conv_Cons)
  have ut: "[0..(3::int)] = [0, 1, 2, 3]" by (simp add: upto_rec1)
  show ?thesis
    using cmd_LINE_reply [of "[''N'' \<mapsto> ''4'', ''IDX'' \<mapsto> ''1'']" "''4''" 4 "''1''" 1
        "init_dev (\<lambda>k. 32768 + 4096 * word_of_nat k)"] p4 p1
    by (simp add: init_dev_def up ut height_of_def Let_def)
qed

section \<open>The firmware: integers and their literals\<close>

lemma digits_val_append:
  "digits_val acc (xs @ [c]) = digits_val acc xs * 10 + ((of_char c :: nat) - 48)"
  by (induction xs arbitrary: acc) simp_all

lemma of_char_digit: "n < 10 \<Longrightarrow> (of_char (char_of (48 + n)) :: nat) = 48 + n"
  by simp

lemma str_nat_digits:
  "list_all is_digit (str_nat n) \<and> str_nat n \<noteq> [] \<and> digits_val 0 (str_nat n) = n"
proof (induction n rule: str_nat.induct)
  case (1 n)
  show ?case
  proof (cases "n < 10")
    case True
    then show ?thesis by (simp add: is_digit_def)
  next
    case False
    have r: "str_nat n = str_nat (n div 10) @ [char_of (48 + n mod 10)]"
      using False by (subst str_nat.simps) simp
    have d: "(of_char (char_of (48 + n mod 10)) :: nat) = 48 + n mod 10"
      by (rule of_char_digit) simp
    have ih: "list_all is_digit (str_nat (n div 10)) \<and> str_nat (n div 10) \<noteq> []
              \<and> digits_val 0 (str_nat (n div 10)) = n div 10"
      using "1.IH" False by simp
    have "n mod 10 < 10" by simp
    then have dg: "is_digit (char_of (48 + n mod 10))"
      unfolding is_digit_def d by linarith
    show ?thesis
      unfolding r using ih d dg by (simp add: digits_val_append del: str_nat.simps)
  qed
qed

lemma ungroup_digits: "list_all is_digit ds \<Longrightarrow> ds \<noteq> [] \<Longrightarrow> ungroup ds = Some ds"
proof (induction ds rule: ungroup.induct)
  case 1
  then show ?case by simp
next
  case (2 c)
  then show ?case by simp
next
  case (3 c d cs)
  have "is_digit d" using "3.prems" by simp
  then have "d \<noteq> CHR ''_''" by (auto simp add: is_digit_def)
  then show ?case using 3 by simp
qed

lemma int_literal_digits:
  assumes "list_all is_digit ds" and "ds \<noteq> []"
  shows "int_literal ds = Some (int (digits_val 0 ds))"
proof -
  obtain c cs where v: "ds = c # cs" using assms(2) by (cases ds) auto
  have "is_digit c" using assms(1) v by simp
  then have "c \<noteq> CHR ''-''" and "c \<noteq> CHR ''+''" by (auto simp add: is_digit_def)
  then show ?thesis
    using v ungroup_digits [OF assms] by (simp add: int_literal_def)
qed

lemma int_literal_minus:
  assumes "list_all is_digit ds" and "ds \<noteq> []"
  shows "int_literal (CHR ''-'' # ds) = Some (- int (digits_val 0 ds))"
  using ungroup_digits [OF assms] by (simp add: int_literal_def)

lemma py_int_str_int: "py_int (str_int c) = Inr c"
proof (cases "c < 0")
  case True
  then show ?thesis
    using str_nat_digits [of "nat (- c)"]
    by (simp add: py_int_def str_int_def int_literal_minus del: str_nat.simps)
next
  case False
  then show ?thesis
    using str_nat_digits [of "nat c"]
    by (simp add: py_int_def str_int_def int_literal_digits del: str_nat.simps)
qed

section \<open>The firmware: START, BIAS and the command loop\<close>


text \<open>
  C6: \<^verbatim>\<open>START\<close> without \<open>N\<close> replies \<^verbatim>\<open>ERR CODE=10\<close>; with an integer \<open>N\<close> outside
  \<open>[2,4096]\<close> it replies \<^verbatim>\<open>ERR CODE=11\<close>; both leave the session
  (\<open>frame_N\<close>, \<open>cur_line_idx\<close>, \<open>cur_dir\<close>, \<open>bias_code\<close>) as it was. With \<open>N\<close> in
  \<open>[2,4096]\<close> it sets \<open>frame_N = N\<close>, \<open>cur_line_idx = 0\<close>, \<open>cur_dir = +1\<close> and replies
  \<^verbatim>\<open>OK\<close>. The witness runs \<open>N = 1, 5000, 2, 4096\<close> and the command without \<open>N\<close>.
\<close>

theorem cmd_START_outcomes:
  "(kv ''N'' = None \<longrightarrow>
      fst (cmd_START kv s) = None
      \<and> stdout (snd (cmd_START kv s)) = stdout s @ [ErrLine 10 ''START requires N'']
      \<and> session (snd (cmd_START kv s)) = session s)
   \<and> (kv ''N'' = Some v \<and> py_int v = Inr n \<and> (n < 2 \<or> 4096 < n) \<longrightarrow>
      fst (cmd_START kv s) = None
      \<and> stdout (snd (cmd_START kv s)) = stdout s @ [ErrLine 11 ''N out of range'']
      \<and> session (snd (cmd_START kv s)) = session s)
   \<and> (kv ''N'' = Some v \<and> py_int v = Inr n \<and> 2 \<le> n \<and> n \<le> 4096 \<longrightarrow>
      fst (cmd_START kv s) = None
      \<and> stdout (snd (cmd_START kv s)) = stdout s @ [OkLine ''start-ready'']
      \<and> session (snd (cmd_START kv s)) = (n, 0, 1, bias_code s))"
proof -
  have absent: "kv ''N'' = None \<Longrightarrow>
      cmd_START kv s = (None, print (ErrLine 10 ''START requires N'') s)"
    by (simp add: cmd_START_def)
  have outside: "kv ''N'' = Some v \<Longrightarrow> py_int v = Inr n \<Longrightarrow> n < 2 \<or> 4096 < n \<Longrightarrow>
      cmd_START kv s = (None, print (ErrLine 11 ''N out of range'') s)"
    by (simp add: cmd_START_def)
  have inside: "kv ''N'' = Some v \<Longrightarrow> py_int v = Inr n \<Longrightarrow> 2 \<le> n \<Longrightarrow> n \<le> 4096 \<Longrightarrow>
      cmd_START kv s =
        (None, print (OkLine ''start-ready'')
                 (s\<lparr>frame_N := n, cur_line_idx := 0, cur_dir := 1\<rparr>))"
    by (simp add: cmd_START_def)
  have kept: "\<And>l. session (print l s) = session s \<and> stdout (print l s) = stdout s @ [l]"
    by (simp add: print_def session_def)
  show ?thesis
  proof (intro conjI impI)
    assume a: "kv ''N'' = None"
    show "fst (cmd_START kv s) = None" by (simp add: absent [OF a])
    show "stdout (snd (cmd_START kv s)) = stdout s @ [ErrLine 10 ''START requires N'']"
      by (simp add: absent [OF a] kept)
    show "session (snd (cmd_START kv s)) = session s" by (simp add: absent [OF a] kept)
  next
    assume a: "kv ''N'' = Some v \<and> py_int v = Inr n \<and> (n < 2 \<or> 4096 < n)"
    then have r: "cmd_START kv s = (None, print (ErrLine 11 ''N out of range'') s)"
      using outside by blast
    show "fst (cmd_START kv s) = None" by (simp add: r)
    show "stdout (snd (cmd_START kv s)) = stdout s @ [ErrLine 11 ''N out of range'']"
      by (simp add: r kept)
    show "session (snd (cmd_START kv s)) = session s" by (simp add: r kept)
  next
    assume a: "kv ''N'' = Some v \<and> py_int v = Inr n \<and> 2 \<le> n \<and> n \<le> 4096"
    then have r: "cmd_START kv s =
        (None, print (OkLine ''start-ready'')
                 (s\<lparr>frame_N := n, cur_line_idx := 0, cur_dir := 1\<rparr>))"
      using inside by blast
    show "fst (cmd_START kv s) = None" by (simp add: r)
    show "stdout (snd (cmd_START kv s)) = stdout s @ [OkLine ''start-ready'']"
      by (simp add: r print_def)
    show "session (snd (cmd_START kv s)) = (n, 0, 1, bias_code s)"
      by (simp add: r print_def session_def)
  qed
qed

text \<open>An \<open>N\<close> that is not an integer raises in \<^verbatim>\<open>int\<close>, before any assignment.\<close>

lemma cmd_START_not_integer:
  "kv ''N'' = Some v \<Longrightarrow> py_int v = Inl e \<Longrightarrow> cmd_START kv s = (Some e, s)"
  by (simp add: cmd_START_def)

lemma parse_kv_N: "parse_kv [CHR ''N'' # CHR ''='' # v] ''N'' = Some (strip v)"
  by (simp add: parse_kv_def split_eq_def upper_def upper_char_def strip_def strip_with_def
      isspace_def)

theorem cmd_START_outcomes_witness:
  "parse_kv [] ''N'' = None
   \<and> stdout (snd (cmd_START (parse_kv []) (init_dev (\<lambda>k. 0)))) = [ErrLine 10 ''START requires N'']
   \<and> session (snd (cmd_START (parse_kv []) (init_dev (\<lambda>k. 0)))) = (128, 0, 1, 20000)
   \<and> parse_kv [''N=1''] ''N'' = Some ''1'' \<and> py_int ''1'' = Inr 1
   \<and> stdout (snd (cmd_START (parse_kv [''N=1'']) (init_dev (\<lambda>k. 0)))) = [ErrLine 11 ''N out of range'']
   \<and> session (snd (cmd_START (parse_kv [''N=1'']) (init_dev (\<lambda>k. 0)))) = (128, 0, 1, 20000)
   \<and> parse_kv [''N=5000''] ''N'' = Some ''5000'' \<and> py_int ''5000'' = Inr 5000
   \<and> stdout (snd (cmd_START (parse_kv [''N=5000'']) (init_dev (\<lambda>k. 0)))) = [ErrLine 11 ''N out of range'']
   \<and> session (snd (cmd_START (parse_kv [''N=5000'']) (init_dev (\<lambda>k. 0)))) = (128, 0, 1, 20000)
   \<and> parse_kv [''N=2''] ''N'' = Some ''2'' \<and> py_int ''2'' = Inr 2
   \<and> stdout (snd (cmd_START (parse_kv [''N=2'']) (init_dev (\<lambda>k. 0)))) = [OkLine ''start-ready'']
   \<and> session (snd (cmd_START (parse_kv [''N=2'']) (init_dev (\<lambda>k. 0)))) = (2, 0, 1, 20000)
   \<and> parse_kv [''N=4096''] ''N'' = Some ''4096'' \<and> py_int ''4096'' = Inr 4096
   \<and> stdout (snd (cmd_START (parse_kv [''N=4096'']) (init_dev (\<lambda>k. 0)))) = [OkLine ''start-ready'']
   \<and> session (snd (cmd_START (parse_kv [''N=4096'']) (init_dev (\<lambda>k. 0)))) = (4096, 0, 1, 20000)"
proof -
  have k0: "parse_kv [] ''N'' = None" by (simp add: parse_kv_def)
  have k1: "parse_kv [''N=1''] ''N'' = Some ''1''"
    and k2: "parse_kv [''N=5000''] ''N'' = Some ''5000''"
    and k3: "parse_kv [''N=2''] ''N'' = Some ''2''"
    and k4: "parse_kv [''N=4096''] ''N'' = Some ''4096''"
    by (simp_all add: parse_kv_N strip_def strip_with_def isspace_def)
  have p1: "py_int ''1'' = Inr 1" and p2: "py_int ''5000'' = Inr 5000"
    and p3: "py_int ''2'' = Inr 2" and p4: "py_int ''4096'' = Inr 4096"
    by (simp_all add: py_int_def int_literal_def is_digit_def)
  have i: "stdout (init_dev (\<lambda>k. 0)) = []" "session (init_dev (\<lambda>k. 0)) = (128, 0, 1, 20000)"
    "bias_code (init_dev (\<lambda>k. 0)) = 20000"
    by (simp_all add: init_dev_def session_def)
  show ?thesis
    using cmd_START_outcomes [of "parse_kv []" "init_dev (\<lambda>k. 0)" "''''" 0]
      cmd_START_outcomes [of "parse_kv [''N=1'']" "init_dev (\<lambda>k. 0)" "''1''" 1]
      cmd_START_outcomes [of "parse_kv [''N=5000'']" "init_dev (\<lambda>k. 0)" "''5000''" 5000]
      cmd_START_outcomes [of "parse_kv [''N=2'']" "init_dev (\<lambda>k. 0)" "''2''" 2]
      cmd_START_outcomes [of "parse_kv [''N=4096'']" "init_dev (\<lambda>k. 0)" "''4096''" 4096]
    by (simp add: k0 k1 k2 k3 k4 p1 p2 p3 p4 i)
qed

text \<open>
  C10: for every integer \<open>CODE\<close>, negative or above 65535 included, \<^verbatim>\<open>BIAS CODE=<CODE>\<close>
  succeeds and sets \<open>bias_code\<close> to \<open>CODE mod 2^16\<close>; every integer has a literal that
  \<^verbatim>\<open>int\<close> reads back; \<open>bias_code\<close> is in \<open>[0,65535]\<close> after the start-up code and stays
  there over every command line.
\<close>

theorem cmd_BIAS_wraps:
  "(kv ''CODE'' = Some v \<and> py_int v = Inr c \<longrightarrow>
      fst (cmd_BIAS kv s) = None
      \<and> bias_code (snd (cmd_BIAS kv s)) = c mod 2 ^ 16
      \<and> 0 \<le> bias_code (snd (cmd_BIAS kv s)) \<and> bias_code (snd (cmd_BIAS kv s)) \<le> 65535
      \<and> stdout (snd (cmd_BIAS kv s)) = stdout s @ [OkLine ''bias-set''])
   \<and> py_int (str_int c) = Inr c
   \<and> bias_in_range (boot src)
   \<and> (bias_in_range s \<longrightarrow> bias_in_range (snd (handle_line line s)))"
proof -
  have b: "bias_in_range (boot src)"
    by (simp add: boot_def init_dev_def set_bias_eq setDac_def dacShiftOut_def print_def
        Let_def bias_in_range_def)
  show ?thesis
    using mod_65536_range [of c] b handle_line_bias [of s line]
    by (auto simp add: cmd_BIAS_def print_def set_bias_eq py_int_str_int)
qed

theorem cmd_BIAS_wraps_witness:
  "[''CODE'' \<mapsto> ''-1''] ''CODE'' = Some ''-1'' \<and> py_int ''-1'' = Inr (- 1)
   \<and> bias_code (snd (cmd_BIAS [''CODE'' \<mapsto> ''-1''] (boot (\<lambda>k. 0)))) = 65535
   \<and> stdout (snd (cmd_BIAS [''CODE'' \<mapsto> ''-1''] (boot (\<lambda>k. 0))))
       = stdout (boot (\<lambda>k. 0)) @ [OkLine ''bias-set'']
   \<and> [''CODE'' \<mapsto> ''70000''] ''CODE'' = Some ''70000'' \<and> py_int ''70000'' = Inr 70000
   \<and> bias_code (snd (cmd_BIAS [''CODE'' \<mapsto> ''70000''] (boot (\<lambda>k. 0)))) = 4464
   \<and> bias_in_range (boot (\<lambda>k. 0))
   \<and> bias_in_range (snd (handle_line ''BIAS CODE=70000'' (boot (\<lambda>k. 0))))"
proof -
  have p1: "py_int ''-1'' = Inr (- 1)" and p2: "py_int ''70000'' = Inr 70000"
    by (simp_all add: py_int_def int_literal_def is_digit_def)
  show ?thesis
    using cmd_BIAS_wraps [of "[''CODE'' \<mapsto> ''-1'']" "''-1''" "- 1" "boot (\<lambda>k. 0)" "\<lambda>k. 0"
        "''BIAS CODE=70000''"]
      cmd_BIAS_wraps [of "[''CODE'' \<mapsto> ''70000'']" "''70000''" 70000 "boot (\<lambda>k. 0)" "\<lambda>k. 0"
        "''BIAS CODE=70000''"]
    by (simp add: p1 p2)
qed

text \<open>
  C9: no exception leaves \<^verbatim>\<open>handle_line\<close>. When the command raises, the reply is
  \<^verbatim>\<open>ERR CODE=99\<close> with the text of the exception and the session is as before the
  command. The main loop never reaches its crash handler, and after any line, erring or
  not, it goes on with the input that follows.
\<close>

theorem handle_line_never_raises:
  "fst (handle_line line s) = None
   \<and> (filter (\<lambda>p. p \<noteq> []) (py_split (strip line)) = c # ps
        \<and> dispatch (upper c) (parse_kv ps) s = (Some e, s1) \<longrightarrow>
        handle_line line s = (None, print (ErrLine 99 (''exception: '' @ str_exn e)) s)
        \<and> session (snd (handle_line line s)) = session s)
   \<and> fst (main_loop input buf s) = None
   \<and> (CHR 0x0A \<notin> set line \<longrightarrow>
        main_loop (line @ CHR 0x0A # input) buf s
          = main_loop input [] (snd (handle_line (buf @ line) s)))"
proof -
  have "filter (\<lambda>p. p \<noteq> []) (py_split (strip line)) = c # ps
        \<and> dispatch (upper c) (parse_kv ps) s = (Some e, s1) \<longrightarrow>
        handle_line line s = (None, print (ErrLine 99 (''exception: '' @ str_exn e)) s)
        \<and> session (snd (handle_line line s)) = session s"
    using dispatch_raise_unchanged [of "upper c" "parse_kv ps" s e s1]
    by (auto simp add: handle_line_def Let_def print_def session_def)
  then show ?thesis
    using handle_line_fst [of line s] main_loop_fst [of input buf s]
      main_loop_line [of line input buf s]
    by blast
qed

lemmas text_eval = strip_def strip_with_def py_split_def isspace_def upper_def upper_char_def
  parse_kv_def split_eq_def py_int_def int_literal_def is_digit_def

theorem handle_line_never_raises_witness:
  "filter (\<lambda>p. p \<noteq> []) (py_split (strip ''START N=abc'')) = [''START'', ''N=abc'']
   \<and> dispatch (upper ''START'') (parse_kv [''N=abc'']) (init_dev (\<lambda>k. 0))
       = (Some (ValueError ''invalid syntax for integer with base 10''), init_dev (\<lambda>k. 0))
   \<and> handle_line ''START N=abc'' (init_dev (\<lambda>k. 0))
       = (None, print (ErrLine 99 ''exception: invalid syntax for integer with base 10'')
                  (init_dev (\<lambda>k. 0)))
   \<and> session (snd (handle_line ''START N=abc'' (init_dev (\<lambda>k. 0)))) = (128, 0, 1, 20000)
   \<and> CHR 0x0A \<notin> set ''START N=abc''
   \<and> main_loop (''START N=abc'' @ CHR 0x0A # ''STATUS'' @ [CHR 0x0A]) [] (init_dev (\<lambda>k. 0))
       = main_loop (''STATUS'' @ [CHR 0x0A]) []
           (snd (handle_line ([] @ ''START N=abc'') (init_dev (\<lambda>k. 0))))
   \<and> stdout (snd (snd (main_loop (''START N=abc'' @ CHR 0x0A # ''STATUS'' @ [CHR 0x0A]) []
                          (init_dev (\<lambda>k. 0)))))
       = [ErrLine 99 ''exception: invalid syntax for integer with base 10'',
          StatusLine 128 0 1 20000]"
proof -
  have t: "filter (\<lambda>p. p \<noteq> []) (py_split (strip ''START N=abc'')) = [''START'', ''N=abc'']"
    by (simp add: text_eval)
  have d: "dispatch (upper ''START'') (parse_kv [''N=abc'']) (init_dev (\<lambda>k. 0))
       = (Some (ValueError ''invalid syntax for integer with base 10''), init_dev (\<lambda>k. 0))"
    by (simp add: dispatch_def cmd_START_def text_eval)
  have i: "session (init_dev (\<lambda>k. 0)) = (128, 0, 1, 20000)"
    by (simp add: init_dev_def session_def)
  have st: "handle_line ''STATUS'' (print (ErrLine 99 ''exception: invalid syntax for integer with base 10'') (init_dev (\<lambda>k. 0)))
      = (None, print (StatusLine 128 0 1 20000)
           (print (ErrLine 99 ''exception: invalid syntax for integer with base 10'') (init_dev (\<lambda>k. 0))))"
    by (simp add: handle_line_def dispatch_def cmd_STATUS_def text_eval print_def init_dev_def)
  have nl: "CHR 0x0A \<notin> set ''START N=abc''" by simp
  note h = handle_line_never_raises [of "''START N=abc''" "init_dev (\<lambda>k. 0)" "''START''"
        "[''N=abc'']" "ValueError ''invalid syntax for integer with base 10''"
        "init_dev (\<lambda>k. 0)" "''STATUS'' @ [CHR 0x0A]" "[]"]
  from h t d have ab: "handle_line ''START N=abc'' (init_dev (\<lambda>k. 0))
       = (None, print (ErrLine 99 (''exception: '' @ str_exn (ValueError ''invalid syntax for integer with base 10'')))
                  (init_dev (\<lambda>k. 0)))
       \<and> session (snd (handle_line ''START N=abc'' (init_dev (\<lambda>k. 0)))) = session (init_dev (\<lambda>k. 0))"
    by blast
  from ab have a: "handle_line ''START N=abc'' (init_dev (\<lambda>k. 0))
       = (None, print (ErrLine 99 ''exception: invalid syntax for integer with base 10'')
                  (init_dev (\<lambda>k. 0)))"
    by simp
  from ab have "session (snd (handle_line ''START N=abc'' (init_dev (\<lambda>k. 0)))) = session (init_dev (\<lambda>k. 0))"
    by (rule conjunct2)
  then have b: "session (snd (handle_line ''START N=abc'' (init_dev (\<lambda>k. 0)))) = (128, 0, 1, 20000)"
    unfolding i .
  from h nl have c: "main_loop (''START N=abc'' @ CHR 0x0A # ''STATUS'' @ [CHR 0x0A]) [] (init_dev (\<lambda>k. 0))
       = main_loop (''STATUS'' @ [CHR 0x0A]) []
           (snd (handle_line ([] @ ''START N=abc'') (init_dev (\<lambda>k. 0))))"
    by blast
  have m: "stdout (snd (snd (main_loop (''STATUS'' @ [CHR 0x0A]) []
             (print (ErrLine 99 ''exception: invalid syntax for integer with base 10'') (init_dev (\<lambda>k. 0))))))
       = [ErrLine 99 ''exception: invalid syntax for integer with base 10'',
          StatusLine 128 0 1 20000]"
    by (simp add: st) (simp add: print_def init_dev_def)
  have m2: "stdout (snd (snd (main_loop (''START N=abc'' @ CHR 0x0A # ''STATUS'' @ [CHR 0x0A]) []
                          (init_dev (\<lambda>k. 0)))))
       = [ErrLine 99 ''exception: invalid syntax for integer with base 10'',
          StatusLine 128 0 1 20000]"
    unfolding c append_Nil a snd_conv by (rule m)
  show ?thesis
    using t d a b nl c m2 by (intro conjI)
qed

section \<open>The host: decoding\<close>

lemma char_of_eq_iff: "n < 256 \<Longrightarrow> (char_of (n::nat) = c) = (n = of_char c)"
proof
  assume n: "n < 256" and "char_of n = c"
  then have "of_char c = n mod 256" by (metis of_char_of)
  then show "n = of_char c" using n by simp
next
  assume "n = of_char c"
  then show "char_of n = c" by simp
qed

lemmas utf8_eval = decode_strict_def decode_replace_def is_cont_def second_ok_def
lemmas utext_eval = strip_with_def uspace_def uupper_def uupper_cp_def lit_def
  usplit_eq_def kv_get_def py_int_u_def to_ascii_def py_int_def int_literal_def is_digit_def
  char_of_eq_iff

text \<open>The two decoders agree on well-formed bytes; on others the replacing one leaves its
  mark.\<close>

lemma utf8_strict_replace: "utf8_strict bs = Some t \<Longrightarrow> utf8_replace bs = t"
proof (induction bs arbitrary: t rule: utf8_replace.induct)
  case 1
  then show ?case by simp
next
  case (2 b bs)
  obtain r k where st: "utf8_step b bs = (r, k)" by (cases "utf8_step b bs")
  show ?case
  proof (cases r)
    case None
    then show ?thesis using "2.prems" st by simp
  next
    case (Some cp)
    then obtain t1 where t1: "utf8_strict (drop (k - 1) bs) = Some t1" and t: "t = cp # t1"
      using "2.prems" st by auto
    have "utf8_replace (drop (k - 1) bs) = t1"
      using "2.IH"(2) [OF st [symmetric] Some t1] .
    then show ?thesis using st Some t by simp
  qed
qed

lemma utf8_replace_marks: "utf8_strict bs = None \<Longrightarrow> 65533 \<in> set (utf8_replace bs)"
proof (induction bs rule: utf8_replace.induct)
  case 1
  then show ?case by simp
next
  case (2 b bs)
  obtain r k where st: "utf8_step b bs = (r, k)" by (cases "utf8_step b bs")
  show ?case
  proof (cases r)
    case None
    then show ?thesis using st by simp
  next
    case (Some cp)
    then have "utf8_strict (drop (k - 1) bs) = None"
      using "2.prems" st by simp
    then have "65533 \<in> set (utf8_replace (drop (k - 1) bs))"
      using "2.IH"(2) [OF st [symmetric] Some] by simp
    then show ?thesis using st Some by simp
  qed
qed

lemma utf8_strict_ascii: "list_all (\<lambda>b. b < 128) bs \<Longrightarrow> utf8_strict bs = Some bs"
  by (induction bs) simp_all

lemma decode_strict_replace: "decode_strict l = Some t \<Longrightarrow> decode_replace l = t"
  by (simp add: decode_strict_def decode_replace_def utf8_strict_replace)

lemma decode_replace_marks: "decode_strict l = None \<Longrightarrow> 65533 \<in> set (decode_replace l)"
  by (simp add: decode_strict_def decode_replace_def utf8_replace_marks)

lemma decode_strict_ascii:
  "list_all (\<lambda>b. (of_char b :: nat) < 128) l \<Longrightarrow> decode_strict l = Some (lit l)"
  by (simp add: decode_strict_def lit_def utf8_strict_ascii list_all_iff)

text \<open>The dictionary of the header holds, for each key, the value of the last token with
  that key.\<close>

lemma header_kv_lookup:
  "header_kv kv ps k = (case last_opt (values_of k ps) of None \<Rightarrow> kv k | Some v \<Rightarrow> Some v)"
proof (induction ps arbitrary: kv)
  case Nil
  show ?case by (simp add: values_of_def last_opt_def)
next
  case (Cons p ps)
  show ?case
    by (simp add: Cons.IH values_of_def last_opt_def case_prod_unfold Let_def)
qed

lemma kv_get_field: "kv_get (header_kv Map.empty ps) key dflt = field_of key dflt ps"
  by (simp add: kv_get_def field_of_def header_kv_lookup split: option.split)

lemma keywords_differ:
  "lit ''LINE'' \<noteq> lit ''POINT''" "lit ''LINE'' \<noteq> lit ''OK''" "lit ''LINE'' \<noteq> lit ''ERR''"
  "lit ''POINT'' \<noteq> lit ''OK''" "lit ''POINT'' \<noteq> lit ''ERR''" "lit ''OK'' \<noteq> lit ''ERR''"
  by (simp_all add: lit_def)

lemma parse_header_try_parts:
  "parse_header_try pyint h =
     (case header_parts h of
        [] \<Rightarrow> Inr None
      | p # rest \<Rightarrow>
          (case (if uupper p = lit ''LINE'' then second_is_ok rest else Inr False) of
             Inl e \<Rightarrow> Inl e
           | Inr True \<Rightarrow> line_header pyint (header_kv Map.empty rest)
           | Inr False \<Rightarrow>
               (case (if uupper p = lit ''POINT'' then second_is_ok rest else Inr False) of
                  Inl e \<Rightarrow> Inl e
                | Inr True \<Rightarrow> point_header pyint (header_kv Map.empty rest)
                | Inr False \<Rightarrow>
                    if uupper p = lit ''OK'' then Inr (Some (HOk (header_text h)))
                    else if uupper p = lit ''ERR'' then Inr (Some (HErr (header_text h)))
                    else Inr (Some (HUnknown (header_text h))))))"
  unfolding parse_header_try_def header_parts_def header_text_def Let_def
  by (rule refl)

lemma parse_header_blank: "header_parts h = [] \<Longrightarrow> parse_header pyint h = None"
  by (simp add: parse_header_def parse_header_try_parts)

lemma parse_header_alone:
  assumes "header_parts h = [p]" and "uupper p = lit ''LINE'' \<or> uupper p = lit ''POINT''"
  shows "parse_header pyint h = None"
proof -
  have "parse_header_try pyint h = Inl IndexError"
    using assms(2)
    by (auto simp add: parse_header_try_parts assms(1) second_is_ok_def keywords_differ
        keywords_differ [symmetric])
  then show ?thesis by (simp add: parse_header_def)
qed

lemma parse_header_line:
  assumes "header_parts h = p # q # ps" and "uupper p = lit ''LINE''" and "uupper q = lit ''OK''"
  shows "parse_header pyint h =
     (case pyint (field_of ''N'' ''0'' (q # ps)) of
        Inl e \<Rightarrow> None
      | Inr n \<Rightarrow>
          (case pyint (field_of ''IDX'' ''0'' (q # ps)) of
             Inl e \<Rightarrow> None
           | Inr i \<Rightarrow>
               (case pyint (field_of ''DIR'' ''+1'' (q # ps)) of
                  Inl e \<Rightarrow> None
                | Inr d \<Rightarrow> Some (HLine n i d))))"
proof -
  have "parse_header_try pyint h = line_header pyint (header_kv Map.empty (q # ps))"
    by (simp add: parse_header_try_parts assms second_is_ok_def del: header_kv.simps)
  then show ?thesis
    by (simp add: parse_header_def line_header_def kv_get_field del: header_kv.simps
        split: sum.split)
qed

lemma parse_header_point:
  assumes "header_parts h = p # q # ps" and "uupper p = lit ''POINT''" and "uupper q = lit ''OK''"
  shows "parse_header pyint h =
     (case pyint (field_of ''COUNT'' ''0'' (q # ps)) of
        Inl e \<Rightarrow> None
      | Inr c \<Rightarrow> Some (HPoint c))"
proof -
  have "parse_header_try pyint h = point_header pyint (header_kv Map.empty (q # ps))"
    by (simp add: parse_header_try_parts assms second_is_ok_def keywords_differ
        keywords_differ [symmetric] del: header_kv.simps)
  then show ?thesis
    by (simp add: parse_header_def point_header_def kv_get_field del: header_kv.simps
        split: sum.split)
qed

lemma parse_header_other:
  assumes "header_parts h = p # ps"
    and "\<not> ((uupper p = lit ''LINE'' \<or> uupper p = lit ''POINT'')
             \<and> (ps = [] \<or> uupper (hd ps) = lit ''OK''))"
  shows "parse_header pyint h =
     Some (if uupper p = lit ''OK'' then HOk (header_text h)
           else if uupper p = lit ''ERR'' then HErr (header_text h)
           else HUnknown (header_text h))"
proof -
  have "parse_header_try pyint h =
     Inr (Some (if uupper p = lit ''OK'' then HOk (header_text h)
           else if uupper p = lit ''ERR'' then HErr (header_text h)
           else HUnknown (header_text h)))"
    using assms(2)
    by (cases ps)
      (auto simp add: parse_header_try_parts assms(1) second_is_ok_def keywords_differ
        keywords_differ [symmetric] simp del: header_kv.simps)
  then show ?thesis by (simp add: parse_header_def)
qed

text \<open>Splitting at a separator is the inverse of joining, and no piece holds the
  separator; tokens between white space are non-empty and hold no white space.\<close>

lemma split_sep_nonempty: "split_sep sep cur s \<noteq> []"
  by (induction s arbitrary: cur) simp_all

lemma split_sep_join: "join_with sep (split_sep sep cur s) = cur @ s"
proof (induction s arbitrary: cur)
  case Nil
  show ?case by simp
next
  case (Cons c s)
  show ?case
  proof (cases "c = sep")
    case True
    obtain y ys where r: "split_sep sep [] s = y # ys"
      using split_sep_nonempty [of sep "[]" s] by (cases "split_sep sep [] s") auto
    have "join_with sep (y # ys) = s" using Cons.IH [of "[]"] r by simp
    then show ?thesis using True r by simp
  next
    case False
    then show ?thesis using Cons.IH [of "cur @ [c]"] by simp
  qed
qed

lemma split_sep_all_pieces:
  "sep \<notin> set cur \<Longrightarrow> \<forall>x \<in> set (split_sep sep cur s). sep \<notin> set x"
proof (induction s arbitrary: cur)
  case Nil
  then show ?case by simp
next
  case (Cons c s)
  show ?case
  proof (cases "c = sep")
    case True
    have "\<forall>x \<in> set (split_sep sep [] s). sep \<notin> set x"
      by (rule Cons.IH) simp
    then show ?thesis using True Cons.prems by simp
  next
    case False
    then have "sep \<notin> set (cur @ [c])" using Cons.prems by auto
    then have "\<forall>x \<in> set (split_sep sep (cur @ [c]) s). sep \<notin> set x"
      by (rule Cons.IH)
    then show ?thesis using False by simp
  qed
qed

lemma split_sep_pieces:
  "sep \<notin> set cur \<Longrightarrow> x \<in> set (split_sep sep cur s) \<Longrightarrow> sep \<notin> set x"
  using split_sep_all_pieces [of sep cur s] by blast

lemma split_ws_all_tokens:
  "\<forall>c \<in> set cur. \<not> sp c \<Longrightarrow>
   \<forall>p \<in> set (split_ws sp cur s). p \<noteq> [] \<and> (\<forall>c \<in> set p. \<not> sp c)"
proof (induction s arbitrary: cur)
  case Nil
  then show ?case by simp
next
  case (Cons c s)
  show ?case
  proof (cases "sp c")
    case True
    have "\<forall>p \<in> set (split_ws sp [] s). p \<noteq> [] \<and> (\<forall>c \<in> set p. \<not> sp c)"
      by (rule Cons.IH) simp
    then show ?thesis using True Cons.prems by simp
  next
    case False
    then have "\<forall>d \<in> set (cur @ [c]). \<not> sp d" using Cons.prems by simp
    then have "\<forall>p \<in> set (split_ws sp (cur @ [c]) s). p \<noteq> [] \<and> (\<forall>c \<in> set p. \<not> sp c)"
      by (rule Cons.IH)
    then show ?thesis using False by simp
  qed
qed

lemma split_ws_tokens:
  "\<forall>c \<in> set cur. \<not> sp c \<Longrightarrow> p \<in> set (split_ws sp cur s) \<Longrightarrow>
   p \<noteq> [] \<and> (\<forall>c \<in> set p. \<not> sp c)"
  using split_ws_all_tokens [of cur sp s] by blast

lemma csv_tokens_pieces:
  assumes "tok \<in> set (csv_tokens t)"
  shows "tok \<noteq> [] \<and> 44 \<notin> set tok"
proof -
  have ne: "tok \<noteq> []" and m: "tok \<in> set (split_sep 44 [] (strip_with uspace t))"
    using assms by (simp_all add: csv_tokens_def)
  have "(44::nat) \<notin> set []" by simp
  then have "44 \<notin> set tok" using m by (rule split_sep_pieces)
  then show ?thesis using ne by simp
qed

lemma header_parts_tokens:
  assumes "p \<in> set (header_parts h)"
  shows "p \<noteq> [] \<and> (\<forall>c \<in> set p. \<not> uspace c)"
proof -
  have m: "p \<in> set (split_ws uspace [] (header_text h))"
    using assms unfolding header_parts_def .
  have "\<forall>c \<in> set []. \<not> uspace c" by simp
  then show ?thesis using m by (rule split_ws_tokens)
qed

lemma parse_header_None_iff:
  "parse_header pyint h = None \<longleftrightarrow>
     header_parts h = []
     \<or> (\<exists>p. header_parts h = [p] \<and> (uupper p = lit ''LINE'' \<or> uupper p = lit ''POINT''))
     \<or> (\<exists>p q ps. header_parts h = p # q # ps \<and> uupper q = lit ''OK''
          \<and> (uupper p = lit ''LINE''
                \<and> (isl (pyint (field_of ''N'' ''0'' (q # ps)))
                     \<or> isl (pyint (field_of ''IDX'' ''0'' (q # ps)))
                     \<or> isl (pyint (field_of ''DIR'' ''+1'' (q # ps))))
              \<or> uupper p = lit ''POINT''
                \<and> isl (pyint (field_of ''COUNT'' ''0'' (q # ps)))))"
proof (cases "header_parts h")
  case Nil
  then show ?thesis by (simp add: parse_header_blank)
next
  case (Cons p rest)
  note c1 = Cons
  show ?thesis
  proof (cases rest)
    case Nil
    show ?thesis
    proof (cases "uupper p = lit ''LINE'' \<or> uupper p = lit ''POINT''")
      case True
      then show ?thesis using c1 Nil parse_header_alone [of h p pyint] by simp
    next
      case False
      then show ?thesis using c1 Nil parse_header_other [of h p "[]" pyint] by simp
    qed
  next
    case (Cons q ps)
    have parts: "header_parts h = p # q # ps" using c1 Cons by simp
    show ?thesis
    proof (cases "uupper q = lit ''OK''")
      case False
      then show ?thesis using parts parse_header_other [of h p "q # ps" pyint] by simp
    next
      case ok: True
      show ?thesis
      proof (cases "uupper p = lit ''LINE''")
        case True
        then show ?thesis
          using parts ok parse_header_line [of h p q ps pyint]
          by (auto simp add: keywords_differ split: sum.splits)
      next
        case nl: False
        show ?thesis
        proof (cases "uupper p = lit ''POINT''")
          case True
          then show ?thesis
            using parts ok parse_header_point [of h p q ps pyint]
            by (auto simp add: keywords_differ keywords_differ [symmetric] split: sum.splits)
        next
          case False
          then show ?thesis
            using parts nl parse_header_other [of h p "q # ps" pyint] by simp
        qed
      qed
    qed
  qed
qed

lemma those_all:
  "(\<forall>x \<in> set xs. f x \<noteq> None) \<Longrightarrow> those (map f xs) = Some (map (the \<circ> f) xs)"
  by (induction xs) auto

lemma those_some_none: "(\<exists>x \<in> set xs. f x = None) \<Longrightarrow> those (map f xs) = None"
  by (induction xs) (auto split: option.split)

text \<open>
  C7, as stated, fails for the header: \<^verbatim>\<open>_parse_header\<close> decodes with
  \<^verbatim>\<open>errors="replace"\<close> and answers \<^verbatim>\<open>unknown\<close> to a line of no known shape, so neither
  bytes that are not UTF-8 nor a malformed line end in \<^verbatim>\<open>None\<close> as such. The single byte
  \<open>0xFF\<close> and the line \<^verbatim>\<open>LINE NOTOK N=x\<close> are headers of kind \<^verbatim>\<open>unknown\<close>.
\<close>

theorem parse_header_replaces:
  "decode_strict [CHR 0xFF] = None
   \<and> parse_header py_int_u [CHR 0xFF] = Some (HUnknown [65533])
   \<and> parse_header py_int_u ''LINE NOTOK N=x'' = Some (HUnknown (lit ''LINE NOTOK N=x''))"
  by (simp add: parse_header_def parse_header_try_def second_is_ok_def utf8_eval utext_eval)

text \<open>
  C7, amended. \<^verbatim>\<open>_parse_header\<close> never raises and its result is fixed for every line of
  bytes: well-formed UTF-8 is read as it is, malformed bytes are replaced by U+FFFD, and
  the text is parsed the same way in both cases. The result is \<^verbatim>\<open>None\<close> exactly for a
  line without tokens, for a line whose only token is \<^verbatim>\<open>LINE\<close> or \<^verbatim>\<open>POINT\<close>, and for a
  \<^verbatim>\<open>LINE OK\<close> or \<^verbatim>\<open>POINT OK\<close> line with a field that \<^verbatim>\<open>int\<close> rejects (\<open>N\<close>, \<open>IDX\<close>,
  \<open>DIR\<close>, or \<open>COUNT\<close>; the value of the last token with that key, the default when there
  is none). With integer fields such a line gives the line or point header that carries
  them; every other line gives a header of kind \<^verbatim>\<open>ok\<close>, \<^verbatim>\<open>err\<close> or \<^verbatim>\<open>unknown\<close> with the
  text of the line. \<^verbatim>\<open>_parse_csv_floats\<close> does not depend on the declared count; it
  returns \<^verbatim>\<open>None\<close> for bytes that are not UTF-8 and when \<^verbatim>\<open>float\<close> rejects some token;
  otherwise it returns the floats of the tokens, however many they are. The tokens are
  the non-empty pieces of the stripped text between its commas.
\<close>

theorem host_decoding:
  "(decode_strict h = Some u \<longrightarrow> decode_replace h = u)
   \<and> (decode_strict h = None \<longrightarrow> 65533 \<in> set (decode_replace h))
   \<and> (parse_header pyint h = None \<longleftrightarrow>
         header_parts h = []
         \<or> (\<exists>p. header_parts h = [p] \<and> (uupper p = lit ''LINE'' \<or> uupper p = lit ''POINT''))
         \<or> (\<exists>p q ps. header_parts h = p # q # ps \<and> uupper q = lit ''OK''
              \<and> (uupper p = lit ''LINE''
                    \<and> (isl (pyint (field_of ''N'' ''0'' (q # ps)))
                         \<or> isl (pyint (field_of ''IDX'' ''0'' (q # ps)))
                         \<or> isl (pyint (field_of ''DIR'' ''+1'' (q # ps))))
                  \<or> uupper p = lit ''POINT''
                    \<and> isl (pyint (field_of ''COUNT'' ''0'' (q # ps))))))
   \<and> (header_parts h = p # q # ps \<and> uupper p = lit ''LINE'' \<and> uupper q = lit ''OK''
        \<and> pyint (field_of ''N'' ''0'' (q # ps)) = Inr n
        \<and> pyint (field_of ''IDX'' ''0'' (q # ps)) = Inr i
        \<and> pyint (field_of ''DIR'' ''+1'' (q # ps)) = Inr d \<longrightarrow>
        parse_header pyint h = Some (HLine n i d))
   \<and> (header_parts h = p # q # ps \<and> uupper p = lit ''POINT'' \<and> uupper q = lit ''OK''
        \<and> pyint (field_of ''COUNT'' ''0'' (q # ps)) = Inr c \<longrightarrow>
        parse_header pyint h = Some (HPoint c))
   \<and> (header_parts h = p # rest
        \<and> \<not> ((uupper p = lit ''LINE'' \<or> uupper p = lit ''POINT'')
               \<and> (rest = [] \<or> uupper (hd rest) = lit ''OK'')) \<longrightarrow>
        parse_header pyint h =
          Some (if uupper p = lit ''OK'' then HOk (header_text h)
                else if uupper p = lit ''ERR'' then HErr (header_text h)
                else HUnknown (header_text h)))
   \<and> parse_csv_floats pf l e1 = parse_csv_floats pf l e2
   \<and> (decode_strict l = None \<longrightarrow> parse_csv_floats pf l e1 = None)
   \<and> (decode_strict l = Some t \<and> (\<exists>tok \<in> set (csv_tokens t). pf tok = None) \<longrightarrow>
        parse_csv_floats pf l e1 = None)
   \<and> (decode_strict l = Some t \<and> (\<forall>tok \<in> set (csv_tokens t). pf tok \<noteq> None) \<longrightarrow>
        parse_csv_floats pf l e1 = Some (map (the \<circ> pf) (csv_tokens t))
        \<and> length (the (parse_csv_floats pf l e1)) = length (csv_tokens t))
   \<and> csv_tokens t = filter (\<lambda>tok. tok \<noteq> []) (split_sep 44 [] (strip_with uspace t))
   \<and> join_with 44 (split_sep 44 [] (strip_with uspace t)) = strip_with uspace t
   \<and> (\<forall>tok \<in> set (split_sep 44 [] (strip_with uspace t)). 44 \<notin> set tok)"
proof -
  have d1: "decode_strict h = Some u \<longrightarrow> decode_replace h = u"
    using decode_strict_replace by blast
  have d2: "decode_strict h = None \<longrightarrow> 65533 \<in> set (decode_replace h)"
    using decode_replace_marks by blast
  note n = parse_header_None_iff [of pyint h]
  have ln: "header_parts h = p # q # ps \<and> uupper p = lit ''LINE'' \<and> uupper q = lit ''OK''
        \<and> pyint (field_of ''N'' ''0'' (q # ps)) = Inr n
        \<and> pyint (field_of ''IDX'' ''0'' (q # ps)) = Inr i
        \<and> pyint (field_of ''DIR'' ''+1'' (q # ps)) = Inr d \<longrightarrow>
        parse_header pyint h = Some (HLine n i d)"
    using parse_header_line [of h p q ps pyint] by simp
  have pt: "header_parts h = p # q # ps \<and> uupper p = lit ''POINT'' \<and> uupper q = lit ''OK''
        \<and> pyint (field_of ''COUNT'' ''0'' (q # ps)) = Inr c \<longrightarrow>
        parse_header pyint h = Some (HPoint c)"
    using parse_header_point [of h p q ps pyint] by simp
  have ot: "header_parts h = p # rest
        \<and> \<not> ((uupper p = lit ''LINE'' \<or> uupper p = lit ''POINT'')
               \<and> (rest = [] \<or> uupper (hd rest) = lit ''OK'')) \<longrightarrow>
        parse_header pyint h =
          Some (if uupper p = lit ''OK'' then HOk (header_text h)
                else if uupper p = lit ''ERR'' then HErr (header_text h)
                else HUnknown (header_text h))"
    using parse_header_other [of h p rest pyint] by blast
  have c1: "parse_csv_floats pf l e1 = parse_csv_floats pf l e2"
    by (simp add: parse_csv_floats_def)
  have c2: "decode_strict l = None \<longrightarrow> parse_csv_floats pf l e1 = None"
    by (simp add: parse_csv_floats_def)
  have c3: "decode_strict l = Some t \<and> (\<exists>tok \<in> set (csv_tokens t). pf tok = None) \<longrightarrow>
        parse_csv_floats pf l e1 = None"
    using those_some_none [of "csv_tokens t" pf] by (auto simp add: parse_csv_floats_def)
  have c4: "decode_strict l = Some t \<and> (\<forall>tok \<in> set (csv_tokens t). pf tok \<noteq> None) \<longrightarrow>
        parse_csv_floats pf l e1 = Some (map (the \<circ> pf) (csv_tokens t))
        \<and> length (the (parse_csv_floats pf l e1)) = length (csv_tokens t)"
    using those_all [of "csv_tokens t" pf] by (auto simp add: parse_csv_floats_def)
  have c5: "csv_tokens t = filter (\<lambda>tok. tok \<noteq> []) (split_sep 44 [] (strip_with uspace t))"
    by (simp add: csv_tokens_def)
  have c6: "join_with 44 (split_sep 44 [] (strip_with uspace t)) = strip_with uspace t"
    using split_sep_join [of 44 "[]" "strip_with uspace t"] by simp
  have c7: "\<forall>tok \<in> set (split_sep 44 [] (strip_with uspace t)). 44 \<notin> set tok"
    by (rule split_sep_all_pieces) simp
  show ?thesis
    using d1 d2 n ln pt ot c1 c2 c3 c4 c5 c6 c7 by (intro conjI)
qed

text \<open>Concrete lines and payloads, decoded with the instances \<open>py_int_u\<close> and
  \<open>float_of_decimal\<close>.\<close>

lemmas header_eval = header_parts_def header_text_def field_of_def values_of_def last_opt_def
lemmas float_eval = float_of_decimal_def is_udigit_def lit_def

lemma parts_line_ok:
  "header_parts ''LINE OK N=4 IDX=1 DIR=-1''
     = [lit ''LINE'', lit ''OK'', lit ''N=4'', lit ''IDX=1'', lit ''DIR=-1'']"
  by (simp add: header_eval utf8_eval utext_eval)

lemma fields_line_ok:
  "py_int_u (field_of ''N'' ''0'' [lit ''OK'', lit ''N=4'', lit ''IDX=1'', lit ''DIR=-1'']) = Inr 4"
  "py_int_u (field_of ''IDX'' ''0'' [lit ''OK'', lit ''N=4'', lit ''IDX=1'', lit ''DIR=-1'']) = Inr 1"
  "py_int_u (field_of ''DIR'' ''+1'' [lit ''OK'', lit ''N=4'', lit ''IDX=1'', lit ''DIR=-1''])
     = Inr (- 1)"
  by (simp_all add: header_eval utext_eval)

lemma parts_bad_field:
  "header_parts (''LINE OK N='' @ [CHR 0xFF]) = [lit ''LINE'', lit ''OK'', lit ''N='' @ [65533]]"
  by (simp add: header_eval utf8_eval utext_eval)

lemma field_bad_field:
  "isl (py_int_u (field_of ''N'' ''0'' [lit ''OK'', lit ''N='' @ [65533]]))"
  by (simp add: header_eval utext_eval decimal_digit_def digit_zeros_def)

lemma parts_alone: "header_parts ''line'' = [lit ''line'']"
  by (simp add: header_eval utf8_eval utext_eval)

lemma parts_blank: "header_parts [CHR '' '', CHR 0x09] = []"
  by (simp add: header_eval utf8_eval utext_eval)

lemma parts_point: "header_parts ''POINT OK COUNT=200'' = [lit ''POINT'', lit ''OK'', lit ''COUNT=200'']"
  by (simp add: header_eval utf8_eval utext_eval)

lemma field_point: "py_int_u (field_of ''COUNT'' ''0'' [lit ''OK'', lit ''COUNT=200'']) = Inr 200"
  by (simp add: header_eval utext_eval)

lemma parts_bad_byte: "header_parts [CHR 0xFF] = [[65533]]" "header_text [CHR 0xFF] = [65533]"
  by (simp_all add: header_eval utf8_eval utext_eval)

lemma parts_err: "header_parts ''ERR CODE=11'' = [lit ''ERR'', lit ''CODE=11'']"
  "header_text ''ERR CODE=11'' = lit ''ERR CODE=11''"
  by (simp_all add: header_eval utf8_eval utext_eval)

lemma upper_examples:
  "uupper (lit ''LINE'') = lit ''LINE''" "uupper (lit ''line'') = lit ''LINE''"
  "uupper (lit ''OK'') = lit ''OK''" "uupper (lit ''POINT'') = lit ''POINT''"
  "uupper (lit ''ERR'') = lit ''ERR''" "uupper [65533] = [65533]"
  by (simp_all add: uupper_def uupper_cp_def lit_def)

lemma strict_examples:
  "decode_strict [CHR 0xFF] = None"
  "decode_strict ''LINE OK N=4 IDX=1 DIR=-1'' = Some (lit ''LINE OK N=4 IDX=1 DIR=-1'')"
  "decode_strict [CHR ''1'', CHR '','', CHR 0xFF] = None"
  "decode_strict ''1,x'' = Some (lit ''1,x'')"
  "decode_strict ''-8.000000,0.500000'' = Some (lit ''-8.000000,0.500000'')"
  by (simp_all add: utf8_eval lit_def)

lemma tokens_examples:
  "csv_tokens (lit ''1,x'') = [lit ''1'', lit ''x'']"
  "csv_tokens (lit ''-8.000000,0.500000'') = [lit ''-8.000000'', lit ''0.500000'']"
  by (simp_all add: csv_tokens_def utext_eval)

lemma float_examples:
  "float_of_decimal (lit ''-8.000000'') = Some (- 8)"
  "float_of_decimal (lit ''0.500000'') = Some (1 / 2)"
  "float_of_decimal (lit ''1'') = Some 1"
  "float_of_decimal (lit ''x'') = None"
  by (simp_all add: float_eval)

theorem host_decoding_witness:
  "decode_strict [CHR 0xFF] = None \<and> 65533 \<in> set (decode_replace [CHR 0xFF])
   \<and> decode_strict ''LINE OK N=4 IDX=1 DIR=-1'' = Some (lit ''LINE OK N=4 IDX=1 DIR=-1'')
   \<and> decode_replace ''LINE OK N=4 IDX=1 DIR=-1'' = lit ''LINE OK N=4 IDX=1 DIR=-1''
   \<and> header_parts ''LINE OK N=4 IDX=1 DIR=-1''
       = [lit ''LINE'', lit ''OK'', lit ''N=4'', lit ''IDX=1'', lit ''DIR=-1'']
   \<and> parse_header py_int_u ''LINE OK N=4 IDX=1 DIR=-1'' = Some (HLine 4 1 (- 1))
   \<and> header_parts ''POINT OK COUNT=200'' = [lit ''POINT'', lit ''OK'', lit ''COUNT=200'']
   \<and> parse_header py_int_u ''POINT OK COUNT=200'' = Some (HPoint 200)
   \<and> header_parts [CHR '' '', CHR 0x09] = []
   \<and> parse_header py_int_u [CHR '' '', CHR 0x09] = None
   \<and> header_parts ''line'' = [lit ''line''] \<and> uupper (lit ''line'') = lit ''LINE''
   \<and> parse_header py_int_u ''line'' = None
   \<and> header_parts (''LINE OK N='' @ [CHR 0xFF]) = [lit ''LINE'', lit ''OK'', lit ''N='' @ [65533]]
   \<and> isl (py_int_u (field_of ''N'' ''0'' [lit ''OK'', lit ''N='' @ [65533]]))
   \<and> parse_header py_int_u (''LINE OK N='' @ [CHR 0xFF]) = None
   \<and> header_parts [CHR 0xFF] = [[65533]]
   \<and> parse_header py_int_u [CHR 0xFF] = Some (HUnknown [65533])
   \<and> header_parts ''ERR CODE=11'' = [lit ''ERR'', lit ''CODE=11'']
   \<and> parse_header py_int_u ''ERR CODE=11'' = Some (HErr (lit ''ERR CODE=11''))
   \<and> decode_strict [CHR ''1'', CHR '','', CHR 0xFF] = None
   \<and> parse_csv_floats float_of_decimal [CHR ''1'', CHR '','', CHR 0xFF] (Some 2) = None
   \<and> decode_strict ''1,x'' = Some (lit ''1,x'')
   \<and> lit ''x'' \<in> set (csv_tokens (lit ''1,x'')) \<and> float_of_decimal (lit ''x'') = None
   \<and> parse_csv_floats float_of_decimal ''1,x'' (Some 2) = None
   \<and> decode_strict ''-8.000000,0.500000'' = Some (lit ''-8.000000,0.500000'')
   \<and> csv_tokens (lit ''-8.000000,0.500000'') = [lit ''-8.000000'', lit ''0.500000'']
   \<and> parse_csv_floats float_of_decimal ''-8.000000,0.500000'' (Some 128) = Some [- 8, 1 / 2]
   \<and> parse_csv_floats float_of_decimal ''-8.000000,0.500000'' (Some 128)
       = parse_csv_floats float_of_decimal ''-8.000000,0.500000'' None"
proof -
  have w1: "65533 \<in> set (decode_replace [CHR 0xFF])"
    by (rule host_decoding [THEN conjunct2, THEN conjunct1, THEN mp]) (rule strict_examples(1))
  have w2: "decode_replace ''LINE OK N=4 IDX=1 DIR=-1'' = lit ''LINE OK N=4 IDX=1 DIR=-1''"
    by (rule host_decoding [THEN conjunct1, THEN mp]) (rule strict_examples(2))
  have w3: "parse_header py_int_u ''LINE OK N=4 IDX=1 DIR=-1'' = Some (HLine 4 1 (- 1))"
    by (rule host_decoding [where p = "lit ''LINE''" and q = "lit ''OK''"
          and ps = "[lit ''N=4'', lit ''IDX=1'', lit ''DIR=-1'']",
          THEN conjunct2, THEN conjunct2, THEN conjunct2, THEN conjunct1, THEN mp])
      (simp add: parts_line_ok fields_line_ok upper_examples)
  have w4: "parse_header py_int_u ''POINT OK COUNT=200'' = Some (HPoint 200)"
    by (rule host_decoding [where p = "lit ''POINT''" and q = "lit ''OK''"
          and ps = "[lit ''COUNT=200'']",
          THEN conjunct2, THEN conjunct2, THEN conjunct2, THEN conjunct2, THEN conjunct1, THEN mp])
      (simp add: parts_point field_point upper_examples)
  have w5: "parse_header py_int_u [CHR '' '', CHR 0x09] = None"
    by (rule host_decoding [THEN conjunct2, THEN conjunct2, THEN conjunct1, THEN iffD2]) (simp add: parts_blank)
  have w6: "parse_header py_int_u ''line'' = None"
    by (rule host_decoding [THEN conjunct2, THEN conjunct2, THEN conjunct1, THEN iffD2]) (simp add: parts_alone upper_examples)
  have w7: "parse_header py_int_u (''LINE OK N='' @ [CHR 0xFF]) = None"
    by (rule host_decoding [THEN conjunct2, THEN conjunct2, THEN conjunct1, THEN iffD2])
      (simp add: parts_bad_field field_bad_field upper_examples del: append.simps)
  have "parse_header py_int_u [CHR 0xFF] =
          Some (if uupper [65533] = lit ''OK'' then HOk (header_text [CHR 0xFF])
                else if uupper [65533] = lit ''ERR'' then HErr (header_text [CHR 0xFF])
                else HUnknown (header_text [CHR 0xFF]))"
    by (rule host_decoding [where rest = "[]",
          THEN conjunct2, THEN conjunct2, THEN conjunct2, THEN conjunct2, THEN conjunct2, THEN conjunct1, THEN mp])
      (simp add: parts_bad_byte upper_examples lit_def)
  then have w8: "parse_header py_int_u [CHR 0xFF] = Some (HUnknown [65533])"
    by (simp add: upper_examples parts_bad_byte lit_def)
  have "parse_header py_int_u ''ERR CODE=11'' =
          Some (if uupper (lit ''ERR'') = lit ''OK'' then HOk (header_text ''ERR CODE=11'')
                else if uupper (lit ''ERR'') = lit ''ERR'' then HErr (header_text ''ERR CODE=11'')
                else HUnknown (header_text ''ERR CODE=11''))"
    by (rule host_decoding [where rest = "[lit ''CODE=11'']",
          THEN conjunct2, THEN conjunct2, THEN conjunct2, THEN conjunct2, THEN conjunct2, THEN conjunct1, THEN mp])
      (simp add: parts_err upper_examples keywords_differ keywords_differ [symmetric])
  then have w9: "parse_header py_int_u ''ERR CODE=11'' = Some (HErr (lit ''ERR CODE=11''))"
    by (simp add: upper_examples parts_err keywords_differ keywords_differ [symmetric])
  have w10: "parse_csv_floats float_of_decimal [CHR ''1'', CHR '','', CHR 0xFF] (Some 2) = None"
    by (rule host_decoding [THEN conjunct2, THEN conjunct2, THEN conjunct2, THEN conjunct2, THEN conjunct2, THEN conjunct2, THEN conjunct2, THEN conjunct1, THEN mp]) (rule strict_examples(3))
  have x: "lit ''x'' \<in> set (csv_tokens (lit ''1,x''))" by (simp add: tokens_examples)
  have w11: "parse_csv_floats float_of_decimal ''1,x'' (Some 2) = None"
    by (rule host_decoding [where t = "lit ''1,x''",
          THEN conjunct2, THEN conjunct2, THEN conjunct2, THEN conjunct2, THEN conjunct2, THEN conjunct2, THEN conjunct2, THEN conjunct2, THEN conjunct1, THEN mp])
      (use strict_examples(4) x float_examples(4) in blast)
  have al: "\<forall>tok \<in> set (csv_tokens (lit ''-8.000000,0.500000'')). float_of_decimal tok \<noteq> None"
    by (simp add: tokens_examples float_examples del: not_None_eq)
  have "parse_csv_floats float_of_decimal ''-8.000000,0.500000'' (Some 128)
       = Some (map (the \<circ> float_of_decimal) (csv_tokens (lit ''-8.000000,0.500000'')))"
    using host_decoding [where t = "lit ''-8.000000,0.500000''" and l = "''-8.000000,0.500000''"
        and pf = float_of_decimal and ?e1.0 = "Some 128",
        THEN conjunct2, THEN conjunct2, THEN conjunct2, THEN conjunct2, THEN conjunct2, THEN conjunct2, THEN conjunct2, THEN conjunct2, THEN conjunct2, THEN conjunct1] strict_examples(5) al
    by blast
  then have w12: "parse_csv_floats float_of_decimal ''-8.000000,0.500000'' (Some 128)
       = Some [- 8, 1 / 2]"
    by (simp add: tokens_examples float_examples)
  have w13: "parse_csv_floats float_of_decimal ''-8.000000,0.500000'' (Some 128)
       = parse_csv_floats float_of_decimal ''-8.000000,0.500000'' None"
    by (rule host_decoding [THEN conjunct2, THEN conjunct2, THEN conjunct2, THEN conjunct2, THEN conjunct2, THEN conjunct2, THEN conjunct1])
  show ?thesis
    using strict_examples(1) w1 strict_examples(2) w2 parts_line_ok w3 parts_point w4
      parts_blank w5 parts_alone upper_examples(2) w6 parts_bad_field field_bad_field w7
      parts_bad_byte(1) w8 parts_err(1) w9 strict_examples(3) w10 strict_examples(4) x
      float_examples(4) w11 strict_examples(5) tokens_examples(2) w12 w13
    by (intro conjI)
qed

section \<open>The host: the consumer tick\<close>

lemma drain_eq:
  "drain fs ll lp =
     (if line_frames fs = [] then ll else Some (last (line_frames fs)),
      if point_frames fs = [] then lp else Some (last (point_frames fs)))"
  by (induction fs ll lp rule: drain.induct) simp_all

lemma drain_last: "drain fs None None = (last_opt (line_frames fs), last_opt (point_frames fs))"
  by (simp add: drain_eq last_opt_def)

lemma toggle_scan_data_q: "toggle_scan a = Inr a1 \<Longrightarrow> data_q a1 = data_q a"
  by (auto simp add: toggle_scan_def reset_topography_def request_next_line_def
      request_start_def send_def split: if_splits)

lemma on_line_data_q: "on_line interp y idx dir a = Inr a1 \<Longrightarrow> data_q a1 = data_q a"
  by (auto simp add: on_line_def append_time_series_def request_next_line_def send_def Let_def
      split: option.splits sum.splits if_splits dest!: toggle_scan_data_q)

lemma poll_device_drained: "poll_device interp a = Inr a1 \<Longrightarrow> data_q a1 = []"
  by (auto simp add: poll_device_def drain_last append_time_series_def Let_def
      split: option.splits if_splits prod.splits dest!: on_line_data_q)

text \<open>
  C8, as stated, fails: a tick that saw a line frame takes the \<^verbatim>\<open>if\<close> branch, and the
  branch for the point frame is its \<^verbatim>\<open>elif\<close>. With two point frames and one line frame
  in the queue of an idle host, the rolling buffer receives the line only; without the
  line frame it receives the most recent point frame.
\<close>

theorem poll_device_point_superseded:
  "\<not> isl (poll_device (\<lambda>n y. y)
            ((scanning_app [PointFrame [1], PointFrame [2], LineFrame [5, 6, 7, 8] 0 1])
               \<lparr>scanning := False\<rparr>))
   \<and> y_buffer (projr (poll_device (\<lambda>n y. y)
            ((scanning_app [PointFrame [1], PointFrame [2], LineFrame [5, 6, 7, 8] 0 1])
               \<lparr>scanning := False\<rparr>))) = [5, 6, 7, 8]
   \<and> y_buffer (projr (poll_device (\<lambda>n y. y)
            ((scanning_app [PointFrame [1], PointFrame [2]])\<lparr>scanning := False\<rparr>))) = [2]"
  by (simp add: poll_device_def on_line_def update_topography_line_def append_time_series_def
      deque_extend_def scanning_app_def Let_def)

text \<open>
  C8, amended: every tick empties the queue and keeps the last line frame and the last
  point frame only. If a line frame was seen, the tick does what it would do with that
  frame alone in the queue: no point frame of the tick is processed. The last point frame
  is processed, by appending it to the rolling buffer, only in a tick without a line
  frame and while not scanning; in every other tick without a line frame the frames are
  dropped and nothing else changes.
\<close>

theorem poll_device_latest:
  "drain fs None None = (last_opt (line_frames fs), last_opt (point_frames fs))
   \<and> (poll_device interp a = Inr a1 \<longrightarrow> data_q a1 = [])
   \<and> (last_opt (line_frames (data_q a)) = Some (y, idx, dir) \<longrightarrow>
        poll_device interp a = on_line interp y idx dir (a\<lparr>data_q := []\<rparr>)
        \<and> poll_device interp a = poll_device interp (a\<lparr>data_q := [LineFrame y idx dir]\<rparr>))
   \<and> (line_frames (data_q a) = [] \<and> last_opt (point_frames (data_q a)) = Some p
        \<and> \<not> scanning a \<longrightarrow>
        poll_device interp a
          = Inr (a\<lparr>y_buffer := deque_extend 10000 (y_buffer a) p, data_q := []\<rparr>))
   \<and> (line_frames (data_q a) = [] \<and> (point_frames (data_q a) = [] \<or> scanning a) \<longrightarrow>
        poll_device interp a = Inr (a\<lparr>data_q := []\<rparr>))"
  using poll_device_drained [of interp a a1]
  by (auto simp add: drain_last poll_device_def last_opt_def append_time_series_def Let_def
      split: if_splits)

theorem poll_device_latest_witness:
  "last_opt (line_frames (data_q ((scanning_app
        [PointFrame [1], PointFrame [2], LineFrame [5, 6, 7, 8] 0 1])\<lparr>scanning := False\<rparr>)))
     = Some ([5, 6, 7, 8], 0, 1)
   \<and> poll_device (\<lambda>n y. y) ((scanning_app
        [PointFrame [1], PointFrame [2], LineFrame [5, 6, 7, 8] 0 1])\<lparr>scanning := False\<rparr>)
     = poll_device (\<lambda>n y. y) ((scanning_app
        [PointFrame [1], PointFrame [2], LineFrame [5, 6, 7, 8] 0 1])
          \<lparr>scanning := False, data_q := [LineFrame [5, 6, 7, 8] 0 1]\<rparr>)
   \<and> line_frames (data_q ((scanning_app [PointFrame [1], PointFrame [2]])\<lparr>scanning := False\<rparr>)) = []
   \<and> last_opt (point_frames (data_q ((scanning_app [PointFrame [1], PointFrame [2]])
        \<lparr>scanning := False\<rparr>))) = Some [2]
   \<and> poll_device (\<lambda>n y. y) ((scanning_app [PointFrame [1], PointFrame [2]])\<lparr>scanning := False\<rparr>)
     = Inr ((scanning_app [PointFrame [1], PointFrame [2]])
          \<lparr>scanning := False, y_buffer := [2], data_q := []\<rparr>)
   \<and> scanning (scanning_app [PointFrame [1], PointFrame [2]])
   \<and> poll_device (\<lambda>n y. y) (scanning_app [PointFrame [1], PointFrame [2]])
     = Inr ((scanning_app [PointFrame [1], PointFrame [2]])\<lparr>data_q := []\<rparr>)
   \<and> data_q ((scanning_app [PointFrame [1], PointFrame [2]])\<lparr>data_q := []\<rparr>) = []"
proof -
  let ?q3 = "[PointFrame [1], PointFrame [2], LineFrame [5, 6, 7, 8] 0 1] :: rat frame list"
  let ?q2 = "[PointFrame [1], PointFrame [2]] :: rat frame list"
  have a: "last_opt (line_frames (data_q ((scanning_app ?q3)\<lparr>scanning := False\<rparr>)))
     = Some ([5, 6, 7, 8], 0, 1)"
    by (simp add: scanning_app_def last_opt_def)
  have b: "line_frames (data_q ((scanning_app ?q2)\<lparr>scanning := False\<rparr>)) = []"
    and c: "last_opt (point_frames (data_q ((scanning_app ?q2)\<lparr>scanning := False\<rparr>))) = Some [2]"
    and d: "\<not> scanning ((scanning_app ?q2)\<lparr>scanning := False\<rparr>)"
    and e: "scanning (scanning_app ?q2)"
    and f: "line_frames (data_q (scanning_app ?q2)) = []"
    by (simp_all add: scanning_app_def last_opt_def)
  have g: "deque_extend 10000 (y_buffer ((scanning_app ?q2)\<lparr>scanning := False\<rparr>)) [2] = [2]"
    by (simp add: scanning_app_def deque_extend_def)
  have 1: "poll_device (\<lambda>n y. y) ((scanning_app ?q3)\<lparr>scanning := False\<rparr>)
     = poll_device (\<lambda>n y. y) ((scanning_app ?q3)
          \<lparr>scanning := False, data_q := [LineFrame [5, 6, 7, 8] 0 1]\<rparr>)"
    using poll_device_latest [where a = "(scanning_app ?q3)\<lparr>scanning := False\<rparr>"
        and y = "[5, 6, 7, 8]" and idx = 0 and dir = 1 and interp = "\<lambda>n y. y"] a
    by blast
  have "poll_device (\<lambda>n y. y) ((scanning_app ?q2)\<lparr>scanning := False\<rparr>)
     = Inr ((scanning_app ?q2)\<lparr>scanning := False,
          y_buffer := deque_extend 10000 (y_buffer ((scanning_app ?q2)\<lparr>scanning := False\<rparr>)) [2],
          data_q := []\<rparr>)"
    using poll_device_latest [where a = "(scanning_app ?q2)\<lparr>scanning := False\<rparr>"
        and p = "[2]" and interp = "\<lambda>n y. y"] b c d
    by blast
  then have 2: "poll_device (\<lambda>n y. y) ((scanning_app ?q2)\<lparr>scanning := False\<rparr>)
     = Inr ((scanning_app ?q2)\<lparr>scanning := False, y_buffer := [2], data_q := []\<rparr>)"
    unfolding g .
  have 3: "poll_device (\<lambda>n y. y) (scanning_app ?q2) = Inr ((scanning_app ?q2)\<lparr>data_q := []\<rparr>)"
    using poll_device_latest [where a = "scanning_app ?q2" and interp = "\<lambda>n y. y"] e f
    by blast
  have 4: "data_q ((scanning_app ?q2)\<lparr>data_q := []\<rparr>) = []"
    using poll_device_latest [where a = "scanning_app ?q2" and interp = "\<lambda>n y. y"
        and ?a1.0 = "(scanning_app ?q2)\<lparr>data_q := []\<rparr>"] 3
    by blast
  show ?thesis using a 1 b c 2 e 3 4 by (intro conjI)
qed

text \<open>
  C3 fails at a line frame without samples. During a scan of 4 lines the frame for row 0
  arrives with an empty payload (the line after the header was blank, which
  \<^verbatim>\<open>_parse_csv_floats\<close> accepts as zero floats, whatever \<^verbatim>\<open>float\<close> does). Resizing it to the width of the
  topography raises in \<^verbatim>\<open>np.interp\<close>; the exception leaves \<^verbatim>\<open>_poll_device\<close> before the
  request for row 1 is queued, although \<open>0 + 1 < 4\<close>.
\<close>

theorem poll_device_empty_line:
  "parse_header py_int_u ''LINE OK N=4 IDX=0 DIR=+1'' = Some (HLine 4 0 1)
   \<and> parse_csv_floats pf [] (Some 4) = Some []
   \<and> scanning (scanning_app [LineFrame [] 0 1])
   \<and> 0 + 1 < linear_size (scanning_app [LineFrame [] 0 1])
   \<and> poll_device interp (scanning_app [LineFrame [] 0 1])
       = Inl (ValueError ''array of sample points is empty'')"
proof -
  have "parse_header py_int_u ''LINE OK N=4 IDX=0 DIR=+1'' = Some (HLine 4 0 1)"
    by (simp add: parse_header_def parse_header_try_def second_is_ok_def line_header_def
        utf8_eval utext_eval)
  moreover have "parse_csv_floats pf [] (Some 4) = Some []"
    by (simp add: parse_csv_floats_def csv_tokens_def decode_strict_def strip_with_def)
  moreover have "poll_device interp (scanning_app [LineFrame [] 0 1])
       = Inl (ValueError ''array of sample points is empty'')"
    by (simp add: poll_device_def on_line_def update_topography_line_def scanning_app_def)
  ultimately show ?thesis by (simp add: scanning_app_def)
qed

text \<open>
  For the ticks that return, the sequencing is as C3 states it, and (drawing left out, as
  in the model) a tick returns whenever its line frame has at least one sample.
\<close>

lemma poll_device_sequencing:
  assumes "scanning a" and "last_opt (line_frames (data_q a)) = Some (y, idx, dir)"
    and "poll_device interp a = Inr a1"
  shows "(idx + 1 < linear_size a \<longrightarrow>
           tx_q a1 = tx_q a @ [''LINE N='' @ str_int (linear_size a) @ '' IDX='' @ str_int (idx + 1)]
           \<and> scanning a1 \<and> line_idx a1 = idx + 1)
       \<and> (linear_size a \<le> idx + 1 \<longrightarrow> tx_q a1 = tx_q a \<and> \<not> scanning a1)"
  using assms
  by (auto simp add: drain_last poll_device_def on_line_def append_time_series_def
      request_next_line_def send_def toggle_scan_def Let_def
      split: option.splits sum.splits if_splits)

lemma poll_device_returns:
  assumes "last_opt (line_frames (data_q a)) = Some (y, idx, dir)"
    and "y \<noteq> []" and "linear_size a \<noteq> 0" and "scanning a"
  shows "\<exists>a1. poll_device interp a = Inr a1"
  using assms
  by (auto simp add: drain_last poll_device_def on_line_def append_time_series_def
      update_topography_line_def toggle_scan_def Let_def
      split: option.splits sum.splits if_splits)

end
